theory Spec2Isabelle
  imports Complex_Main "HOL-Library.Sublist"
begin

section \<open>Values of the JavaScript runtime\<close>

text \<open>
  The route handler of the flashcard generator is a TypeScript module running on Node.
  It receives untyped JSON, coerces it with \<open>String\<close> and \<open>Number\<close>, and talks to
  three collaborators (identity service, row store, completion service).  This section
  models the values the module computes with.

  Numbers are IEEE doubles in the runtime.  Here a finite number is the rational it
  denotes; the three special values are kept apart, since comparisons, \<open>Math.min\<close>,
  \<open>Math.max\<close> and \<open>+\<close> treat them specially.  Where the runtime computes a new
  number (a sum, the value of a numeric text) the exact result is rounded to the
  nearest double (\<open>to_double\<close> below).  The sign of zero is not kept.

  Text is a list of code units; one \<open>char\<close> stands for one code unit below 256.
\<close>

datatype jsnum = NaN | PosInf | NegInf | Fin rat

datatype jsval =
    JUndefined
  | JNull
  | JBool bool
  | JNum jsnum
  | JStr string
  | JArr "jsval list"
  | JObj "(string \<times> jsval) list"

text \<open>Errors that the module or a builtin throws; \<open>message\<close> is \<open>err.message\<close>.\<close>

datatype js_error = TypeError string | SyntaxError string | RangeError string | Error string

fun message :: "js_error \<Rightarrow> string" where
  "message (TypeError m) = m"
| "message (SyntaxError m) = m"
| "message (RangeError m) = m"
| "message (Error m) = m"

text \<open>
  Builtins of the runtime that the module calls and whose result is not determined by
  the module: \<open>JSON.parse\<close> and the decimal rendering of a finite number
  (\<open>Number::toString\<close>).  They are parameters of the model.
\<close>

record runtime =
  JSON_parse :: "string \<Rightarrow> js_error + jsval"
  Number_toString :: "rat \<Rightarrow> string"

definition try_bind :: "'e + 'a \<Rightarrow> ('a \<Rightarrow> 'e + 'b) \<Rightarrow> 'e + 'b" where
  "try_bind m f = (case m of Inl e \<Rightarrow> Inl e | Inr x \<Rightarrow> f x)"

subsection \<open>Comparison and arithmetic on numbers\<close>

text \<open>\<open>a > b\<close>: false whenever an operand is \<open>NaN\<close>.\<close>

fun js_gt :: "jsnum \<Rightarrow> jsnum \<Rightarrow> bool" where
  "js_gt NaN _ = False"
| "js_gt _ NaN = False"
| "js_gt PosInf b = (b \<noteq> PosInf)"
| "js_gt NegInf _ = False"
| "js_gt (Fin x) PosInf = False"
| "js_gt (Fin x) NegInf = True"
| "js_gt (Fin x) (Fin y) = (x > y)"

text \<open>\<open>a <= b\<close>: false whenever an operand is \<open>NaN\<close>.\<close>

fun js_le :: "jsnum \<Rightarrow> jsnum \<Rightarrow> bool" where
  "js_le NaN _ = False"
| "js_le _ NaN = False"
| "js_le a b = (\<not> js_gt a b)"

fun Math_min :: "jsnum \<Rightarrow> jsnum \<Rightarrow> jsnum" where
  "Math_min NaN _ = NaN"
| "Math_min _ NaN = NaN"
| "Math_min a b = (if js_gt a b then b else a)"

fun Math_max :: "jsnum \<Rightarrow> jsnum \<Rightarrow> jsnum" where
  "Math_max NaN _ = NaN"
| "Math_max _ NaN = NaN"
| "Math_max a b = (if js_gt b a then b else a)"

text \<open>
  Rounding to binary64, to nearest with ties to even.  \<open>binade x\<close> is the exponent
  \<open>e\<close> with \<open>2^e \<le> |x| < 2^(e+1)\<close>, found by halving or doubling, but not below
  \<open>-1022\<close> (the subnormal range) and not above \<open>1024\<close>.  Doubles with that exponent
  are the multiples of \<open>2^(e-52)\<close>; a rounded result with the exponent \<open>1024\<close>, that
  is of magnitude \<open>2^1024\<close> or more, is an infinity.
\<close>

definition pow2 :: "int \<Rightarrow> rat" where
  "pow2 e = (if e < 0 then 1 / 2 ^ nat (- e) else 2 ^ nat e)"

definition round_half_even :: "rat \<Rightarrow> int" where
  "round_half_even q =
     (let f = \<lfloor>q\<rfloor>; d = q - of_int f
      in if d < 1 / 2 then f else if 1 / 2 < d then f + 1 else if even f then f else f + 1)"

fun halvings :: "nat \<Rightarrow> rat \<Rightarrow> int" where
  "halvings 0 x = 0"
| "halvings (Suc n) x = (if x < 2 then 0 else 1 + halvings n (x / 2))"

fun doublings :: "nat \<Rightarrow> rat \<Rightarrow> int" where
  "doublings 0 x = 0"
| "doublings (Suc n) x = (if 1 \<le> x then 0 else 1 + doublings n (2 * x))"

definition binade :: "rat \<Rightarrow> int" where
  "binade x = (if 1 \<le> \<bar>x\<bar> then halvings 1024 \<bar>x\<bar> else - doublings 1022 \<bar>x\<bar>)"

definition to_double :: "rat \<Rightarrow> jsnum" where
  "to_double x =
     (let ulp = pow2 (binade x - 52);
          y = of_int (round_half_even (x / ulp)) * ulp
      in if 1024 \<le> binade y then (if 0 < x then PosInf else NegInf) else Fin y)"

text \<open>\<open>a + b\<close>: the exact sum of two finite numbers, rounded.\<close>

fun js_add :: "jsnum \<Rightarrow> jsnum \<Rightarrow> jsnum" where
  "js_add NaN _ = NaN"
| "js_add _ NaN = NaN"
| "js_add PosInf NegInf = NaN"
| "js_add NegInf PosInf = NaN"
| "js_add PosInf _ = PosInf"
| "js_add _ PosInf = PosInf"
| "js_add NegInf _ = NegInf"
| "js_add _ NegInf = NegInf"
| "js_add (Fin x) (Fin y) = to_double (x + y)"

subsection \<open>White space, trimming, case\<close>

text \<open>
  \<open>WhiteSpace\<close> and \<open>LineTerminator\<close> code units below 256: TAB, LF, VT, FF, CR,
  SP and NBSP.  \<open>String.prototype.trim\<close>, the regular expression class \<open>\s\<close> and
  the numeric-string grammar all use this set.
\<close>

definition is_ws :: "char \<Rightarrow> bool" where
  "is_ws c \<longleftrightarrow> c \<in> set [CHR 0x09, CHR 0x0A, CHR 0x0B, CHR 0x0C, CHR 0x0D, CHR 0x20, CHR 0xA0]"

definition trimStart :: "string \<Rightarrow> string" where
  "trimStart s = dropWhile is_ws s"

definition trimEnd :: "string \<Rightarrow> string" where
  "trimEnd s = rev (dropWhile is_ws (rev s))"

definition trim :: "string \<Rightarrow> string" where
  "trim s = trimEnd (trimStart s)"

text \<open>
  \<open>toLowerCase\<close> on code units below 256: the ASCII capitals and the Latin-1 capitals
  (all of 0xC0..0xDE but the multiplication sign) move up by 32.
\<close>

definition lower_char :: "char \<Rightarrow> char" where
  "lower_char c =
     (let n = (of_char c :: nat)
      in if (65 \<le> n \<and> n \<le> 90) \<or> (192 \<le> n \<and> n \<le> 222 \<and> n \<noteq> 215)
         then char_of (n + 32) else c)"

definition toLowerCase :: "string \<Rightarrow> string" where
  "toLowerCase s = map lower_char s"

definition startsWith :: "string \<Rightarrow> string \<Rightarrow> bool" where
  "startsWith s p \<longleftrightarrow> take (length p) s = p"

subsection \<open>\<open>Number(string)\<close>\<close>

text \<open>
  \<open>StringToNumber\<close>: the text, stripped of white space, is empty (0), a signed decimal
  literal, \<open>Infinity\<close> with an optional sign, or an unsigned binary, octal or
  hexadecimal integer literal; anything else is \<open>NaN\<close>.  The value of a literal is its
  mathematical value rounded to the nearest double (V8 rounds correctly whatever the
  number of digits).
\<close>

definition is_digit :: "char \<Rightarrow> bool" where
  "is_digit c \<longleftrightarrow> c \<in> set ''0123456789''"

definition digit_val :: "char \<Rightarrow> int" where
  "digit_val c =
     (let n = (of_char c :: int)
      in if 48 \<le> n \<and> n \<le> 57 then n - 48
         else if 97 \<le> n \<and> n \<le> 102 then n - 87
         else n - 55)"

definition is_radix_digit :: "int \<Rightarrow> char \<Rightarrow> bool" where
  "is_radix_digit b c \<longleftrightarrow>
     c \<in> set ''0123456789abcdefABCDEF'' \<and> digit_val c < b"

definition digits_val :: "int \<Rightarrow> string \<Rightarrow> int" where
  "digits_val b ds = foldl (\<lambda>acc c. acc * b + digit_val c) 0 ds"

text \<open>\<open>ExponentPart\<close>, optional: \<open>e\<close> or \<open>E\<close>, an optional sign, at least one digit.\<close>

definition exponent_part :: "string \<Rightarrow> int option" where
  "exponent_part s =
     (case s of
        [] \<Rightarrow> Some 0
      | c # t \<Rightarrow>
          if c = CHR ''e'' \<or> c = CHR ''E'' then
            (case t of
               [] \<Rightarrow> None
             | d # u \<Rightarrow>
                 let (neg, ds) =
                       (if d = CHR ''-'' then (True, u)
                        else if d = CHR ''+'' then (False, u) else (False, t))
                 in if ds \<noteq> [] \<and> list_all is_digit ds
                    then Some (if neg then - digits_val 10 ds else digits_val 10 ds)
                    else None)
          else None)"

definition pow10 :: "int \<Rightarrow> rat" where
  "pow10 e = (if e < 0 then 1 / 10 ^ nat (- e) else 10 ^ nat e)"

text \<open>\<open>StrUnsignedDecimalLiteral\<close>.\<close>

definition unsigned_decimal :: "string \<Rightarrow> jsnum option" where
  "unsigned_decimal s =
     (if s = ''Infinity'' then Some PosInf
      else
        let ip = takeWhile is_digit s;
            r1 = dropWhile is_digit s;
            fp = (case r1 of [] \<Rightarrow> [] | c # t \<Rightarrow> if c = CHR ''.'' then takeWhile is_digit t else []);
            r2 = (case r1 of [] \<Rightarrow> [] | c # t \<Rightarrow> if c = CHR ''.'' then dropWhile is_digit t else r1)
        in if ip = [] \<and> fp = [] then None
           else (case exponent_part r2 of
                   None \<Rightarrow> None
                 | Some e \<Rightarrow>
                     Some (to_double ((of_int (digits_val 10 ip)
                                        + of_int (digits_val 10 fp) / 10 ^ length fp) * pow10 e))))"

definition js_neg :: "jsnum \<Rightarrow> jsnum" where
  "js_neg n = (case n of NaN \<Rightarrow> NaN | PosInf \<Rightarrow> NegInf | NegInf \<Rightarrow> PosInf | Fin x \<Rightarrow> Fin (- x))"

text \<open>\<open>NonDecimalIntegerLiteral\<close>: no sign, a prefix, at least one digit of the radix.\<close>

definition non_decimal :: "string \<Rightarrow> jsnum option" where
  "non_decimal s =
     (case s of
        z # p # ds \<Rightarrow>
          let b = (if p = CHR ''x'' \<or> p = CHR ''X'' then 16
                   else if p = CHR ''o'' \<or> p = CHR ''O'' then 8
                   else if p = CHR ''b'' \<or> p = CHR ''B'' then 2 else (0::int))
          in if z = CHR ''0'' \<and> b \<noteq> 0 \<and> ds \<noteq> [] \<and> list_all (is_radix_digit b) ds
             then Some (to_double (of_int (digits_val b ds))) else None
      | _ \<Rightarrow> None)"

definition StringToNumber :: "string \<Rightarrow> jsnum" where
  "StringToNumber str =
     (let s = trim str
      in if s = [] then Fin 0
         else (case non_decimal s of
                 Some n \<Rightarrow> n
               | None \<Rightarrow>
                   (case s of
                      [] \<Rightarrow> NaN
                    | c # t \<Rightarrow>
                        if c = CHR ''-'' then (case unsigned_decimal t of Some n \<Rightarrow> js_neg n | None \<Rightarrow> NaN)
                        else if c = CHR ''+'' then (case unsigned_decimal t of Some n \<Rightarrow> n | None \<Rightarrow> NaN)
                        else (case unsigned_decimal s of Some n \<Rightarrow> n | None \<Rightarrow> NaN))))"

subsection \<open>\<open>String(v)\<close> and \<open>Number(v)\<close>\<close>

text \<open>
  The values come from \<open>JSON.parse\<close>, so no property of an object is callable.  An
  object with an own property \<open>toString\<close> therefore has no usable conversion method:
  \<open>OrdinaryToPrimitive\<close> finds \<open>toString\<close> not callable, \<open>valueOf\<close> either not
  callable (own) or returning the object itself (inherited), and throws.  Every other
  object converts to \<open>[object Object]\<close>.  An array converts to its elements joined by
  commas, \<open>null\<close> and \<open>undefined\<close> elements giving the empty text.
\<close>

definition not_primitive :: "js_error" where
  "not_primitive = TypeError ''Cannot convert object to primitive value''"

definition num_text :: "runtime \<Rightarrow> jsnum \<Rightarrow> string" where
  "num_text rt n =
     (case n of NaN \<Rightarrow> ''NaN'' | PosInf \<Rightarrow> ''Infinity'' | NegInf \<Rightarrow> ''-Infinity''
      | Fin x \<Rightarrow> Number_toString rt x)"

fun js_String :: "runtime \<Rightarrow> jsval \<Rightarrow> js_error + string"
  and js_join :: "runtime \<Rightarrow> jsval list \<Rightarrow> js_error + string" where
  "js_String rt JUndefined = Inr ''undefined''"
| "js_String rt JNull = Inr ''null''"
| "js_String rt (JBool b) = Inr (if b then ''true'' else ''false'')"
| "js_String rt (JNum n) = Inr (num_text rt n)"
| "js_String rt (JStr s) = Inr s"
| "js_String rt (JArr xs) = js_join rt xs"
| "js_String rt (JObj kvs) =
     (if ''toString'' \<in> fst ` set kvs then Inl not_primitive else Inr ''[object Object]'')"
| "js_join rt [] = Inr []"
| "js_join rt (x # xs) =
     (case (if x = JUndefined \<or> x = JNull then Inr [] else js_String rt x) of
        Inl e \<Rightarrow> Inl e
      | Inr s \<Rightarrow>
          (if xs = [] then Inr s
           else (case js_join rt xs of Inl e \<Rightarrow> Inl e | Inr r \<Rightarrow> Inr (s @ '','' @ r))))"

fun js_Number :: "runtime \<Rightarrow> jsval \<Rightarrow> js_error + jsnum" where
  "js_Number rt JUndefined = Inr NaN"
| "js_Number rt JNull = Inr (Fin 0)"
| "js_Number rt (JBool b) = Inr (Fin (if b then 1 else 0))"
| "js_Number rt (JNum n) = Inr n"
| "js_Number rt (JStr s) = Inr (StringToNumber s)"
| "js_Number rt v = try_bind (js_String rt v) (\<lambda>s. Inr (StringToNumber s))"

subsection \<open>Property access\<close>

text \<open>
  \<open>v?.k\<close> for the property names the module reads (\<open>notes\<close>, \<open>count\<close>, \<open>style\<close>,
  \<open>mode\<close>, \<open>plan\<close>, \<open>flashcards_used\<close>, \<open>choices\<close>, \<open>message\<close>, \<open>content\<close>,
  \<open>title\<close>, \<open>flashcards\<close>, \<open>question\<close>, \<open>answer\<close>, \<open>tags\<close>): none of them is
  defined on a built-in prototype, so only an object can have one.
\<close>

fun get_prop :: "jsval \<Rightarrow> string \<Rightarrow> jsval" where
  "get_prop (JObj kvs) k = (case map_of kvs k of Some v \<Rightarrow> v | None \<Rightarrow> JUndefined)"
| "get_prop _ k = JUndefined"

text \<open>\<open>v?.[0]\<close>.\<close>

fun get_index0 :: "jsval \<Rightarrow> jsval" where
  "get_index0 (JArr xs) = (case xs of [] \<Rightarrow> JUndefined | x # _ \<Rightarrow> x)"
| "get_index0 (JStr s) = (case s of [] \<Rightarrow> JUndefined | c # _ \<Rightarrow> JStr [c])"
| "get_index0 (JObj kvs) = (case map_of kvs ''0'' of Some v \<Rightarrow> v | None \<Rightarrow> JUndefined)"
| "get_index0 _ = JUndefined"

text \<open>\<open>v ?? d\<close>.\<close>

definition nullish :: "jsval \<Rightarrow> jsval \<Rightarrow> jsval" where
  "nullish v d = (if v = JUndefined \<or> v = JNull then d else v)"

text \<open>Truthiness, as \<open>!v\<close> and \<open>&&\<close> read it.\<close>

fun truthy :: "jsval \<Rightarrow> bool" where
  "truthy JUndefined = False"
| "truthy JNull = False"
| "truthy (JBool b) = b"
| "truthy (JNum n) = (n \<noteq> NaN \<and> n \<noteq> Fin 0)"
| "truthy (JStr s) = (s \<noteq> [])"
| "truthy _ = True"

section \<open>Reading the request body\<close>

text \<open>
  \<open>req.json().catch(() => ({}))\<close>: a body that does not parse is the empty object.
  The four fields are then coerced in source order; a coercion that throws ends the
  \<open>try\<close> block.
\<close>

record request =
  req_body :: "jsval option"
  req_authorization :: "string option"

record fields =
  f_notes :: string
  f_count :: jsnum
  f_style :: string
  f_mode :: string

definition body_of :: "request \<Rightarrow> jsval" where
  "body_of req = (case req_body req of None \<Rightarrow> JObj [] | Some b \<Rightarrow> b)"

definition clamp_count :: "jsnum \<Rightarrow> jsnum" where
  "clamp_count n = Math_max (Fin 3) (Math_min (Fin 50) n)"

definition read_fields :: "runtime \<Rightarrow> jsval \<Rightarrow> js_error + fields" where
  "read_fields rt body =
     try_bind (js_String rt (nullish (get_prop body ''notes'') (JStr ''''))) (\<lambda>n.
     try_bind (js_Number rt (nullish (get_prop body ''count'') (JNum (Fin 12)))) (\<lambda>c.
     try_bind (js_String rt (nullish (get_prop body ''style'') (JStr ''balanced''))) (\<lambda>s.
     try_bind (js_String rt (nullish (get_prop body ''mode'') (JStr ''auto''))) (\<lambda>m.
       Inr \<lparr> f_notes = trim n, f_count = clamp_count c, f_style = s, f_mode = m \<rparr>))))"

section \<open>Response Extractor\<close>

subsection \<open>The regular expression\<close>

text \<open>
  \<open>text.match(/```json\s*([\s\S]*?)\s*```/i)\<close>, as the backtracking matcher runs it.
  Each piece of the pattern takes the rest of the pattern as a continuation: the greedy
  \<open>\s*\<close> tries the longest run of white space first and gives characters back, the lazy
  group tries the shortest capture first and takes one more code unit at a time.  The
  search tries every start position from the left.  The result is the capture of group
  1, or \<open>None\<close> for \<open>null\<close>.

  With the flag \<open>i\<close> a code unit matches a letter of the pattern when their upper cases
  agree; no code unit outside ASCII has an ASCII upper case there.
\<close>

definition upper_ascii :: "char \<Rightarrow> char" where
  "upper_ascii c =
     (let n = (of_char c :: nat) in if 97 \<le> n \<and> n \<le> 122 then char_of (n - 32) else c)"

fun literal_ci :: "string \<Rightarrow> string \<Rightarrow> string option" where
  "literal_ci [] s = Some s"
| "literal_ci (p # ps) [] = None"
| "literal_ci (p # ps) (c # cs) =
     (if upper_ascii c = upper_ascii p then literal_ci ps cs else None)"

fun greedy_ws :: "(string \<Rightarrow> 'a option) \<Rightarrow> string \<Rightarrow> 'a option" where
  "greedy_ws k [] = k []"
| "greedy_ws k (c # cs) =
     (if is_ws c
      then (case greedy_ws k cs of Some r \<Rightarrow> Some r | None \<Rightarrow> k (c # cs))
      else k (c # cs))"

fun lazy_any :: "(string \<Rightarrow> 'a option) \<Rightarrow> string \<Rightarrow> string \<Rightarrow> (string \<times> 'a) option" where
  "lazy_any k acc [] = (case k [] of Some r \<Rightarrow> Some (rev acc, r) | None \<Rightarrow> None)"
| "lazy_any k acc (c # cs) =
     (case k (c # cs) of Some r \<Rightarrow> Some (rev acc, r) | None \<Rightarrow> lazy_any k (c # acc) cs)"

definition fence_at :: "string \<Rightarrow> string option" where
  "fence_at s =
     (case literal_ci ''```json'' s of
        None \<Rightarrow> None
      | Some r \<Rightarrow>
          map_option fst
            (greedy_ws (lazy_any (greedy_ws (literal_ci ''```'')) []) r))"

fun match_fence :: "string \<Rightarrow> string option" where
  "match_fence [] = fence_at []"
| "match_fence (c # cs) =
     (case fence_at (c # cs) of Some cap \<Rightarrow> Some cap | None \<Rightarrow> match_fence cs)"

subsection \<open>\<open>indexOf\<close>, \<open>lastIndexOf\<close>, \<open>slice\<close>\<close>

text \<open>Index of the first, of the last occurrence of a code unit; \<open>-1\<close> when there is none.\<close>

fun indexOf :: "string \<Rightarrow> char \<Rightarrow> int" where
  "indexOf [] x = - 1"
| "indexOf (c # cs) x =
     (if c = x then 0 else (let i = indexOf cs x in if i = - 1 then - 1 else i + 1))"

definition lastIndexOf :: "string \<Rightarrow> char \<Rightarrow> int" where
  "lastIndexOf s x =
     (let i = indexOf (rev s) x in if i = - 1 then - 1 else int (length s) - 1 - i)"

text \<open>\<open>Math.min(...ns)\<close> on integers: \<open>None\<close> stands for \<open>Infinity\<close>, the minimum of no numbers.\<close>

fun Math_min_list :: "int list \<Rightarrow> int option" where
  "Math_min_list [] = None"
| "Math_min_list (n # ns) =
     (case Math_min_list ns of None \<Rightarrow> Some n | Some m \<Rightarrow> Some (min n m))"

text \<open>\<open>text.slice(a, b)\<close> for \<open>0 \<le> a\<close> and \<open>0 \<le> b\<close>.\<close>

definition slice :: "string \<Rightarrow> int \<Rightarrow> int \<Rightarrow> string" where
  "slice s a b = take (nat b - nat a) (drop (nat a) s)"

subsection \<open>\<open>extractJson\<close>\<close>

text \<open>
  The fallback, when no fence was used: the span from the first opening bracket or brace
  to the last closing one.
\<close>

definition malformed :: js_error where
  "malformed = Error ''Model did not return valid JSON''"

definition bracket_scan :: "runtime \<Rightarrow> string \<Rightarrow> js_error + jsval" where
  "bracket_scan rt text =
     (let first = Math_min_list
                    (filter (\<lambda>n. n \<noteq> - 1) [indexOf text CHR ''['', indexOf text CHR ''{'']);
          last = max (lastIndexOf text CHR '']'') (lastIndexOf text CHR ''}'')
      in (case first of
            None \<Rightarrow> Inl malformed
          | Some f \<Rightarrow>
              if f \<ge> 0 \<and> last > f
              then JSON_parse rt (slice text f (last + 1))
              else Inl malformed))"

text \<open>\<open>if (fenced?.[1])\<close>: a match whose capture is the empty text does not count.\<close>

definition extractJson :: "runtime \<Rightarrow> string \<Rightarrow> js_error + jsval" where
  "extractJson rt text =
     (case match_fence text of
        None \<Rightarrow> bracket_scan rt text
      | Some cap \<Rightarrow> if cap \<noteq> [] then JSON_parse rt cap else bracket_scan rt text)"

section \<open>Prompt Builder\<close>

definition nl :: string where
  "nl = [CHR 0x0A]"

definition questions_rules :: string where
  \<open>questions_rules =
     ''The input is a QUESTION BANK / practice set. Create flashcards where the FRONT is the question and the BACK is the correct answer/explanation.''\<close>

definition short_notes_rules :: string where
  \<open>short_notes_rules =
     ''The input is SHORT NOTES / summaries. Create flashcards where the FRONT is a short prompt (term, heading, key idea) and the BACK is the explanation/steps/formula.''\<close>

definition auto_rules :: string where
  \<open>auto_rules =
     ''Auto-detect: if the input contains many questions ("?", Q:, MCQ, etc.) treat it as a question bank; otherwise treat it as notes.''\<close>

text \<open>
  The declared type of \<open>mode\<close> is a union of three literals, but the caller casts an
  arbitrary text to it, so \<open>mode\<close> is a text here.  \<open>${count}\<close> renders the number.
\<close>

definition buildFlashcardPrompt :: "runtime \<Rightarrow> string \<Rightarrow> jsnum \<Rightarrow> string \<Rightarrow> string \<Rightarrow> string" where
  \<open>buildFlashcardPrompt rt userText count style mode =
     (let modeRules =
            (if mode = ''questions'' then questions_rules
             else if mode = ''short_notes'' then short_notes_rules
             else auto_rules)
      in trim
        (''You are an expert flashcard creator.'' @ nl @
         ''Return ONLY valid JSON, no extra text.'' @ nl @
         nl @
         ''Task:'' @ nl @
         ''- Create '' @ num_text rt count @ '' high-quality flashcards.'' @ nl @
         ''- Each flashcard MUST feel like a real flashcard: short, testable FRONT and a complete BACK.'' @ nl @
         nl @
         modeRules @ nl @
         nl @
         ''Output schema (exact):'' @ nl @
         ''{'' @ nl @
         ''  "title": string,'' @ nl @
         ''  "flashcards": ['' @ nl @
         ''    { "question": string, "answer": string, "tags": string[] }'' @ nl @
         ''  ]'' @ nl @
         ''}'' @ nl @
         nl @
         ''Quality rules:'' @ nl @
         ''- FRONT (question) should be short and specific (max ~140 chars if possible).'' @ nl @
         ''- BACK (answer) should be structured and correct; use short bullet-like lines as plain text if needed.'' @ nl @
         ''- Avoid duplicate cards.'' @ nl @
         ''- If content is formula/steps, include them cleanly.'' @ nl @
         ''- Tags: 0-4 short tags per card.'' @ nl @
         ''- No markdown, no code fences.'' @ nl @
         ''- Style: '' @ style @ '' (balanced = mix of definitions+concepts, exam = more application, simple = easy language)'' @ nl @
         nl @
         ''INPUT:'' @ nl @
         userText))\<close>

section \<open>Cleaning the model's cards\<close>

record flashcard =
  question :: string
  answer :: string
  tags :: "string list"

text \<open>\<open>xs.map(f)\<close> with an \<open>f\<close> that may throw: elements are converted from the left.\<close>

fun try_map :: "('a \<Rightarrow> 'e + 'b) \<Rightarrow> 'a list \<Rightarrow> 'e + 'b list" where
  "try_map f [] = Inr []"
| "try_map f (x # xs) =
     try_bind (f x) (\<lambda>y. try_bind (try_map f xs) (\<lambda>ys. Inr (y # ys)))"

text \<open>\<open>ToIntegerOrInfinity\<close> on a finite number: truncation towards zero.\<close>

definition ToInteger :: "rat \<Rightarrow> int" where
  "ToInteger x = (if x \<ge> 0 then \<lfloor>x\<rfloor> else \<lceil>x\<rceil>)"

text \<open>
  \<open>xs.slice(0, end)\<close>: \<open>NaN\<close> counts as 0, a negative end counts from the back, and
  the end is capped by the length.
\<close>

definition array_slice0 :: "'a list \<Rightarrow> jsnum \<Rightarrow> 'a list" where
  "array_slice0 xs e =
     (case e of
        NaN \<Rightarrow> []
      | NegInf \<Rightarrow> []
      | PosInf \<Rightarrow> xs
      | Fin x \<Rightarrow>
          (let n = ToInteger x
           in if n < 0 then take (nat (max (int (length xs) + n) 0)) xs
              else take (nat (min n (int (length xs)))) xs))"

definition clean_card :: "runtime \<Rightarrow> jsval \<Rightarrow> js_error + flashcard" where
  "clean_card rt c =
     try_bind (js_String rt (nullish (get_prop c ''question'') (JStr ''''))) (\<lambda>q.
     try_bind (js_String rt (nullish (get_prop c ''answer'') (JStr ''''))) (\<lambda>a.
     try_bind (case get_prop c ''tags'' of
                 JArr ts \<Rightarrow> try_bind (try_map (js_String rt) ts) (\<lambda>ss. Inr (take 6 ss))
               | _ \<Rightarrow> Inr []) (\<lambda>ts.
       Inr \<lparr> question = trim q, answer = trim a, tags = ts \<rparr>)))"

definition cleaned_cards :: "runtime \<Rightarrow> jsval list \<Rightarrow> jsnum \<Rightarrow> js_error + flashcard list" where
  "cleaned_cards rt flashcards count =
     try_bind (try_map (clean_card rt) flashcards) (\<lambda>cs.
       Inr (array_slice0 (filter (\<lambda>c. question c \<noteq> [] \<and> answer c \<noteq> []) cs) count))"

section \<open>Generation Handler\<close>

subsection \<open>The world of one request\<close>

record process_env =
  GROQ_API_KEY :: "string option"
  NEXT_PUBLIC_SUPABASE_URL :: "string option"
  SUPABASE_SERVICE_ROLE_KEY :: "string option"

datatype plan = Free | Premium

text \<open>The row handed to \<open>insert\<close>; its \<open>output\<close> is the title with the cleaned cards.\<close>

record generation =
  g_user_id :: string
  g_input :: string
  g_mode :: string
  g_style :: string
  g_requested_count :: jsnum
  g_title :: string
  g_output :: "flashcard list"

text \<open>
  What the completion service answers: the \<open>fetch\<close> rejects, or it resolves to a
  response with a status and a body; reading the body, with \<open>text()\<close> or \<open>json()\<close>,
  gives its text or rejects.
\<close>

datatype fetch_result = Fetch_rejects js_error | Fetch_response int "js_error + string"

text \<open>
  The collaborators, as functions of what the handler sends them.  An awaited call
  rejects with an error (\<open>Inl\<close>) or resolves (\<open>Inr\<close>): \<open>getUser\<close> to the user id
  behind an access token (\<open>None\<close> for a reported error or no user), the two row lookups
  to their \<open>data\<close> (\<open>JNull\<close> for no row or a reported error).  \<open>createClient\<close> makes
  no call; it returns the error it throws, if it throws (the URL may be malformed).
  \<open>insert_resolves\<close> tells whether the awaited \<open>insert\<close> resolves.
\<close>

record services =
  createClient :: "string \<Rightarrow> string \<Rightarrow> js_error option"
  auth_getUser :: "string \<Rightarrow> js_error + string option"
  select_profiles :: "string \<Rightarrow> js_error + jsval"
  select_usage :: "string \<Rightarrow> js_error + jsval"
  fetch_completion :: "string \<Rightarrow> string \<Rightarrow> fetch_result"
  insert_resolves :: "generation \<Rightarrow> bool"

text \<open>Every call that leaves the process, in the order the handler makes it.\<close>

datatype effect =
    Auth_getUser string
  | Select_profiles string
  | Select_usage string
  | Fetch_completion string string
  | Insert_generations generation
  | Upsert_usage string jsnum

fun is_write :: "effect \<Rightarrow> bool" where
  "is_write (Insert_generations g) = True"
| "is_write (Upsert_usage u n) = True"
| "is_write _ = False"

fun is_completion_call :: "effect \<Rightarrow> bool" where
  "is_completion_call (Fetch_completion k p) = True"
| "is_completion_call _ = False"

record response =
  status :: int
  payload :: jsval

text \<open>
  \<open>NextResponse.json(obj, { status })\<close>; the status is 200 when none is given.  The
  payload is the object handed over, before it is serialised.
\<close>

definition json_response :: "(string \<times> jsval) list \<Rightarrow> int \<Rightarrow> response" where
  "json_response obj st = \<lparr> status = st, payload = JObj obj \<rparr>"

text \<open>
  The constructor of a response refuses a status outside 200 to 599 with a
  \<open>RangeError\<close>, and a body together with a status that allows none (204, 205, 304;
  101 and 103 are out of range already) with a \<open>TypeError\<close>.  The handler's fixed
  statuses (400, 401, 402, 500, 502, 200) pass; a status copied from the completion
  service may not.
\<close>

definition response_init_error :: "runtime \<Rightarrow> int \<Rightarrow> js_error option" where
  "response_init_error rt st =
     (if st < 200 \<or> 599 < st
      then Some (RangeError ''init[\"status\"] must be in the range of 200 to 599, inclusive.'')
      else if st \<in> {204, 205, 304}
      then Some (TypeError (''Response constructor: Invalid response status code ''
                             @ Number_toString rt (of_int st)))
      else None)"

definition prepend :: "effect list \<Rightarrow> 'a \<times> effect list \<Rightarrow> 'a \<times> effect list" where
  "prepend es r = (fst r, es @ snd r)"

definition flashcard_json :: "flashcard \<Rightarrow> jsval" where
  "flashcard_json c =
     JObj [(''question'', JStr (question c)), (''answer'', JStr (answer c)),
           (''tags'', JArr (map JStr (tags c)))]"

subsection \<open>From the completion to the cards\<close>

text \<open>
  \<open>JSON.parse(text)\<close>, and \<open>extractJson(text)\<close> when that throws.  \<open>JSON.parse\<close>
  converts its argument to a text first; \<open>extractJson\<close> calls \<open>text.match\<close>, which
  only a text has.
\<close>

definition parse_content :: "runtime \<Rightarrow> jsval \<Rightarrow> js_error + jsval" where
  "parse_content rt content =
     (case try_bind (js_String rt content) (JSON_parse rt) of
        Inr v \<Rightarrow> Inr v
      | Inl _ \<Rightarrow>
          (case content of
             JStr s \<Rightarrow> extractJson rt s
           | _ \<Rightarrow> Inl (TypeError ''text.match is not a function'')))"

text \<open>
  The body of a 2xx answer, up to the cleaned cards: either an early response (502) or
  the title and the cards.
\<close>

definition read_completion ::
  "runtime \<Rightarrow> string \<Rightarrow> jsnum \<Rightarrow> js_error + (response + string \<times> flashcard list)" where
  "read_completion rt body count =
     try_bind (JSON_parse rt body) (\<lambda>data.
       let content =
             get_prop (get_prop (get_index0 (get_prop data ''choices'')) ''message'') ''content''
       in if \<not> truthy content
          then Inr (Inl (json_response [(''error'', JStr ''No response from Groq'')] 502))
          else
            try_bind (parse_content rt content) (\<lambda>parsed.
            try_bind (js_String rt (nullish (get_prop parsed ''title'') (JStr ''Flashcards''))) (\<lambda>title.
            try_bind (cleaned_cards rt
                        (case get_prop parsed ''flashcards'' of JArr cs \<Rightarrow> cs | _ \<Rightarrow> [])
                        count) (\<lambda>cleaned.
              Inr (Inr (title, cleaned))))))"

subsection \<open>The handler\<close>

text \<open>
  Each stage returns what the \<open>try\<close> block produced (a thrown error or a response) and
  the calls made.  The detached block at the end starts the \<open>insert\<close> at once and the
  \<open>upsert\<close> once the \<open>insert\<close> has resolved; its calls are part of the trace.
\<close>

definition generate ::
  "runtime \<Rightarrow> services \<Rightarrow> string \<Rightarrow> fields \<Rightarrow> string \<Rightarrow> plan \<Rightarrow> jsnum
     \<Rightarrow> (js_error + response) \<times> effect list" where
  "generate rt sv apiKey f userId pl usedBefore =
     (let prompt = buildFlashcardPrompt rt (f_notes f) (f_count f) (f_style f) (f_mode f)
      in prepend [Fetch_completion apiKey prompt]
        (case fetch_completion sv apiKey prompt of
           Fetch_rejects e \<Rightarrow> (Inl e, [])
         | Fetch_response st body \<Rightarrow>
             if \<not> (200 \<le> st \<and> st \<le> 299)
             then (case body of
                     Inl e \<Rightarrow> (Inl e, [])
                   | Inr details \<Rightarrow>
                       (case response_init_error rt st of
                          Some e \<Rightarrow> (Inl e, [])
                        | None \<Rightarrow>
                            (Inr (json_response
                                    [(''error'', JStr ''Groq request failed''),
                                     (''details'', JStr details)] st), [])))
             else
               (case try_bind body (\<lambda>b. read_completion rt b (f_count f)) of
                  Inl e \<Rightarrow> (Inl e, [])
                | Inr (Inl early) \<Rightarrow> (Inr early, [])
                | Inr (Inr (title, cleaned)) \<Rightarrow>
                    (let row = \<lparr> g_user_id = userId, g_input = f_notes f, g_mode = f_mode f,
                                 g_style = f_style f, g_requested_count = f_count f,
                                 g_title = title, g_output = cleaned \<rparr>
                     in (Inr (json_response
                                [(''title'', JStr title),
                                 (''flashcards'', JArr (map flashcard_json cleaned))] 200),
                         Insert_generations row #
                         (if insert_resolves sv row \<and> pl = Free
                          then [Upsert_usage userId
                                  (js_add usedBefore (Fin (of_nat (length cleaned))))]
                          else []))))))"

definition quota_payload :: "runtime \<Rightarrow> jsnum \<Rightarrow> (string \<times> jsval) list" where
  "quota_payload rt used =
     [(''error'', JStr ''Free plan limit reached''),
      (''details'', JStr (''Free users can generate up to '' @ num_text rt (Fin 100)
                          @ '' flashcards. You have '' @ num_text rt used @ '' used.'')),
      (''used'', JNum used),
      (''limit'', JNum (Fin 100))]"

definition serve_user ::
  "runtime \<Rightarrow> services \<Rightarrow> string \<Rightarrow> fields \<Rightarrow> string \<Rightarrow> (js_error + response) \<times> effect list" where
  "serve_user rt sv apiKey f userId =
     prepend [Select_profiles userId]
       (case select_profiles sv userId of
          Inl e \<Rightarrow> (Inl e, [])
        | Inr profile \<Rightarrow>
            (let pl = (if get_prop profile ''plan'' = JStr ''premium'' then Premium else Free)
             in if pl = Free
                then prepend [Select_usage userId]
                  (case select_usage sv userId of
                     Inl e \<Rightarrow> (Inl e, [])
                   | Inr usageRow \<Rightarrow>
                       (case js_Number rt
                               (nullish (get_prop usageRow ''flashcards_used'') (JNum (Fin 0))) of
                          Inl e \<Rightarrow> (Inl e, [])
                        | Inr used \<Rightarrow>
                            if js_gt (js_add used (f_count f)) (Fin 100)
                            then (Inr (json_response (quota_payload rt used) 402), [])
                            else generate rt sv apiKey f userId pl used))
                else generate rt sv apiKey f userId pl (Fin 0)))"

text \<open>\<open>!v\<close> for a variable of the process environment: unset or empty.\<close>

definition unset :: "string option \<Rightarrow> bool" where
  "unset v \<longleftrightarrow> v = None \<or> v = Some []"

definition env_text :: "string option \<Rightarrow> string" where
  "env_text v = (case v of None \<Rightarrow> [] | Some s \<Rightarrow> s)"

definition access_token :: "string option \<Rightarrow> string" where
  "access_token h =
     (let authHeader = (case h of None \<Rightarrow> [] | Some v \<Rightarrow> v)
      in if startsWith (toLowerCase authHeader) ''bearer '' then drop 7 authHeader else [])"

definition POST_try ::
  "runtime \<Rightarrow> process_env \<Rightarrow> services \<Rightarrow> request \<Rightarrow> (js_error + response) \<times> effect list" where
  "POST_try rt env sv req =
     (case read_fields rt (body_of req) of
        Inl e \<Rightarrow> (Inl e, [])
      | Inr f \<Rightarrow>
          if f_notes f = []
          then (Inr (json_response [(''error'', JStr ''Notes are required'')] 400), [])
          else if unset (GROQ_API_KEY env)
          then (Inr (json_response
                       [(''error'', JStr ''Server misconfigured: missing GROQ_API_KEY'')] 500), [])
          else if unset (NEXT_PUBLIC_SUPABASE_URL env) \<or> unset (SUPABASE_SERVICE_ROLE_KEY env)
          then (Inr (json_response
                       [(''error'', JStr ''Server misconfigured: missing Supabase server env vars'')]
                       500), [])
          else
            (let accessToken = access_token (req_authorization req)
             in if accessToken = []
                then (Inr (json_response [(''error'', JStr ''Unauthorized'')] 401), [])
                else
                  (case createClient sv (env_text (NEXT_PUBLIC_SUPABASE_URL env))
                          (env_text (SUPABASE_SERVICE_ROLE_KEY env)) of
                     Some e \<Rightarrow> (Inl e, [])
                   | None \<Rightarrow>
                       prepend [Auth_getUser accessToken]
                         (case auth_getUser sv accessToken of
                            Inl e \<Rightarrow> (Inl e, [])
                          | Inr None \<Rightarrow>
                              (Inr (json_response [(''error'', JStr ''Unauthorized'')] 401), [])
                          | Inr (Some userId) \<Rightarrow>
                              serve_user rt sv (env_text (GROQ_API_KEY env)) f userId))))"

text \<open>The \<open>catch\<close> of the handler turns a thrown error into a 500 with its message.\<close>

definition POST :: "runtime \<Rightarrow> process_env \<Rightarrow> services \<Rightarrow> request \<Rightarrow> response \<times> effect list" where
  "POST rt env sv req =
     (case POST_try rt env sv req of
        (Inl err, tr) \<Rightarrow> (json_response [(''error'', JStr (message err))] 500, tr)
      | (Inr r, tr) \<Rightarrow> (r, tr))"

section \<open>The specification's reading of the bracket scan\<close>

text \<open>
  The position of the first opening bracket or brace, and of the last closing one, as
  the specification words them; \<open>None\<close> when there is none.
\<close>

definition first_opening :: "string \<Rightarrow> nat option" where
  "first_opening text =
     (let n = length (takeWhile (\<lambda>c. c \<noteq> CHR ''['' \<and> c \<noteq> CHR ''{'') text)
      in if n < length text then Some n else None)"

definition last_closing :: "string \<Rightarrow> nat option" where
  "last_closing text =
     (let n = length (takeWhile (\<lambda>c. c \<noteq> CHR '']'' \<and> c \<noteq> CHR ''}'') (rev text))
      in if n < length text then Some (length text - 1 - n) else None)"

text \<open>
  ``If a first position exists and the last position is strictly after it, parse the
  substring spanning both (inclusive) as JSON''; otherwise the extraction fails.
\<close>

definition spec_bracket_scan :: "runtime \<Rightarrow> string \<Rightarrow> js_error + jsval" where
  "spec_bracket_scan rt text =
     (case (first_opening text, last_closing text) of
        (Some i, Some j) \<Rightarrow>
          if i < j then JSON_parse rt (take (j - i + 1) (drop i text)) else Inl malformed
      | _ \<Rightarrow> Inl malformed)"

section \<open>A sample runtime and sample requests\<close>

text \<open>
  Concrete inputs for the examples below.  The sample runtime parses the three JSON
  texts the examples hand to \<open>JSON.parse\<close> and rejects every other text (the examples
  hand it no other valid JSON text); it renders whole numbers from 0 in decimal, and
  the one fraction of the examples, \<open>3 + 2^-51\<close>, as the runtime does.
\<close>

fun decimal :: "nat \<Rightarrow> string" where
  "decimal n =
     (if n < 10 then [char_of (48 + n)] else decimal (n div 10) @ [char_of (48 + n mod 10)])"

declare decimal.simps [simp del]

text \<open>What the model answered, and the body of the completion service's reply around it.\<close>

definition sample_content :: string where
  \<open>sample_content =
     ''{"title":"Biology","flashcards":[{"question":"Q1","answer":""},{"question":"Q2","answer":"A2"}]}''\<close>

definition json_quoted :: "string \<Rightarrow> string" where
  "json_quoted s =
     [CHR 0x22] @ concat (map (\<lambda>c. if c = CHR 0x22 then [CHR 0x5C, CHR 0x22] else [c]) s)
       @ [CHR 0x22]"

definition sample_reply :: string where
  \<open>sample_reply = ''{"choices":[{"message":{"content":'' @ json_quoted sample_content @ ''}}]}''\<close>

definition sample_runtime :: runtime where
  \<open>sample_runtime =
     \<lparr> JSON_parse = (\<lambda>s.
         if s = ''{"a":1}'' then Inr (JObj [(''a'', JNum (Fin 1))])
         else if s = sample_reply
         then Inr (JObj [(''choices'',
                 JArr [JObj [(''message'', JObj [(''content'', JStr sample_content)])]])])
         else if s = sample_content
         then Inr (JObj [(''title'', JStr ''Biology''),
                 (''flashcards'',
                  JArr [JObj [(''question'', JStr ''Q1''), (''answer'', JStr [])],
                        JObj [(''question'', JStr ''Q2''), (''answer'', JStr ''A2'')]])])
         else Inl (SyntaxError ''Unexpected token'')),
       Number_toString = (\<lambda>x. if x = 3 + 1 / 2 ^ 51 then ''3.0000000000000004''
                               else decimal (nat \<lfloor>x\<rfloor>)) \<rparr>\<close>

definition sample_fenced :: string where
  \<open>sample_fenced = ''Sure: ```json'' @ [CHR 0x0A] @ ''{"a":1}'' @ [CHR 0x0A] @ ''``` done''\<close>

definition sample_empty_fence :: string where
  \<open>sample_empty_fence = ''```json'' @ [CHR 0x0A] @ ''```'' @ [CHR 0x0A] @ ''{"a":1}''\<close>

definition sample_unfenced :: string where
  \<open>sample_unfenced = ''Here is the result: {"a":1} thanks''\<close>

definition sample_env :: process_env where
  "sample_env =
     \<lparr> GROQ_API_KEY = Some ''gsk'', NEXT_PUBLIC_SUPABASE_URL = Some ''https://db'',
       SUPABASE_SERVICE_ROLE_KEY = Some ''srk'' \<rparr>"

text \<open>
  A free-plan user \<open>u1\<close> behind the token \<open>tok\<close>, with 95 cards used; the completion
  service answers 200 with the sample reply.
\<close>

definition sample_services :: services where
  "sample_services =
     \<lparr> createClient = (\<lambda>url key. None),
       auth_getUser = (\<lambda>t. Inr (if t = ''tok'' then Some ''u1'' else None)),
       select_profiles = (\<lambda>u. Inr (JObj [(''plan'', JStr ''free'')])),
       select_usage = (\<lambda>u. Inr (JObj [(''flashcards_used'', JNum (Fin 95))])),
       fetch_completion = (\<lambda>k p. Fetch_response 200 (Inr sample_reply)),
       insert_resolves = (\<lambda>g. True) \<rparr>"

text \<open>The same collaborators, for a user with 97 cards used.\<close>

definition sample_services_97 :: services where
  "sample_services_97 =
     sample_services
       \<lparr> select_usage := (\<lambda>u. Inr (JObj [(''flashcards_used'', JNum (Fin 97))])) \<rparr>"

text \<open>A request for \<open>n\<close> cards in the mode \<open>m\<close>, with the Authorization header \<open>h\<close>.\<close>

definition sample_request :: "rat \<Rightarrow> string \<Rightarrow> string option \<Rightarrow> request" where
  "sample_request n m h =
     \<lparr> req_body = Some (JObj [(''notes'', JStr ''photosynthesis''), (''count'', JNum (Fin n)),
                              (''mode'', JStr m)]),
       req_authorization = h \<rparr>"

definition sample_fields :: "rat \<Rightarrow> string \<Rightarrow> fields" where
  "sample_fields n m =
     \<lparr> f_notes = ''photosynthesis'', f_count = Fin n, f_style = ''balanced'', f_mode = m \<rparr>"

text \<open>Ten valid cards, \<open>Q1\<close>/\<open>A1\<close> to \<open>Q10\<close>/\<open>A10\<close>, and the card the cleaning makes of
  the \<open>i\<close>-th.\<close>


definition sample_entry :: "nat \<Rightarrow> jsval" where
  "sample_entry i =
     JObj [(''question'', JStr (''Q'' @ decimal i)), (''answer'', JStr (''A'' @ decimal i))]"

definition sample_card :: "nat \<Rightarrow> flashcard" where
  "sample_card i = \<lparr> question = ''Q'' @ decimal i, answer = ''A'' @ decimal i, tags = [] \<rparr>"

definition ten_entries :: "jsval list" where
  "ten_entries = map sample_entry [1..<11]"

section \<open>Numbers and the clamp\<close>

lemma clamp_count_range:
  "n \<noteq> NaN \<Longrightarrow> js_le (Fin 3) (clamp_count n) \<and> js_le (clamp_count n) (Fin 50)"
  by (cases n) (simp_all add: clamp_count_def)

lemma clamp_count_default: "clamp_count (Fin 12) = Fin 12"
  by (simp add: clamp_count_def)

lemma read_fields_count_number:
  "get_prop body ''count'' = JNum n \<Longrightarrow> read_fields rt body = Inr f \<Longrightarrow> f_count f = clamp_count n"
  by (auto simp: read_fields_def try_bind_def nullish_def split: sum.splits)

lemma read_fields_count_missing:
  "get_prop body ''count'' = JUndefined \<Longrightarrow> read_fields rt body = Inr f \<Longrightarrow> f_count f = Fin 12"
  by (auto simp: read_fields_def try_bind_def nullish_def clamp_count_def split: sum.splits)

subsection \<open>Rounding leaves whole numbers alone\<close>

lemma halvings_nonneg: "0 \<le> halvings n x"
  by (induction n arbitrary: x) simp_all

lemma doublings_nonneg: "0 \<le> doublings n x"
  by (induction n arbitrary: x) simp_all

lemma halvings_le: "x < 2 ^ Suc k \<Longrightarrow> k \<le> n \<Longrightarrow> halvings n x \<le> int k"
proof (induction n arbitrary: x k)
  case 0
  then show ?case by simp
next
  case (Suc n)
  show ?case
  proof (cases "x < 2")
    case True
    then show ?thesis by simp
  next
    case False
    with Suc.prems(1) obtain j where k: "k = Suc j"
      by (cases k) auto
    with Suc.prems have "x / 2 < 2 ^ Suc j" "j \<le> n"
      by simp_all
    then have "halvings n (x / 2) \<le> int j"
      by (rule Suc.IH)
    with False k show ?thesis by simp
  qed
qed

lemma binade_whole: "\<bar>x\<bar> < 2 ^ 53 \<Longrightarrow> binade x \<le> 52"
proof (cases "1 \<le> \<bar>x\<bar>")
  case True
  assume "\<bar>x\<bar> < 2 ^ 53"
  then have "halvings 1024 \<bar>x\<bar> \<le> int 52"
    by (intro halvings_le) simp_all
  with True show ?thesis by (simp add: binade_def)
next
  case False
  then show ?thesis
    using doublings_nonneg [of 1022 "\<bar>x\<bar>"] by (simp add: binade_def)
qed

lemma round_half_even_of_int: "round_half_even (of_int m) = m"
  by (simp add: round_half_even_def)

lemma to_double_whole:
  assumes "\<bar>n\<bar> < 2 ^ 53"
  shows "to_double (of_int n) = Fin (of_int n)"
proof -
  define k where "k = nat (52 - binade (of_int n))"
  from assms have "\<bar>of_int n :: rat\<bar> < 2 ^ 53"
    by (simp flip: of_int_abs)
  then have "binade (of_int n) \<le> 52"
    by (rule binade_whole)
  then have ulp: "pow2 (binade (of_int n) - 52) = 1 / 2 ^ k"
    by (auto simp: pow2_def k_def nat_diff_distrib)
  have "(of_int n :: rat) / (1 / 2 ^ k) = of_int (n * 2 ^ k)"
    by simp
  then have r: "round_half_even (of_int n / (1 / 2 ^ k)) = n * 2 ^ k"
    by (simp only: round_half_even_of_int)
  have y: "(of_int (n * 2 ^ k) :: rat) * (1 / 2 ^ k) = of_int n"
    by simp
  from assms have "\<bar>of_int n :: rat\<bar> < 2 ^ 53"
    by (simp flip: of_int_abs)
  then have "\<not> 1024 \<le> binade (of_int n)"
    using binade_whole [of "of_int n"] by simp
  with ulp r y show ?thesis
    by (simp add: to_double_def Let_def)
qed

lemma js_add_whole:
  "\<bar>a + b\<bar> < 2 ^ 53 \<Longrightarrow> js_add (Fin (of_int a)) (Fin (of_int b)) = Fin (of_int (a + b))"
  using to_double_whole [of "a + b"] by simp

lemma NaN_count_passes_quota: "\<not> js_gt (js_add used NaN) (Fin 100)"
  by (cases used) simp_all

lemma NaN_count_keeps_no_card: "array_slice0 cards NaN = []"
  by (simp add: array_slice0_def)

text \<open>
  C2.  The claim: for every request body the count lies in [3, 50].  The clamp
  \<open>Math.max(3, Math.min(50, Number(...)))\<close> keeps every number in that range
  (\<open>clamp_count_range\<close>), but \<open>Number\<close> of a text that is no numeric literal is
  \<open>NaN\<close>, and both \<open>Math.min\<close> and \<open>Math.max\<close> return \<open>NaN\<close> for it: for the body
  \<open>{"notes": "x", "count": "abc"}\<close> the count the handler uses is \<open>NaN\<close>, which is
  neither at least 3 nor at most 50.
\<close>

theorem count_NaN_for_non_numeric_text:
  "read_fields rt (JObj [(''notes'', JStr ''x''), (''count'', JStr ''abc'')])
     = Inr \<lparr> f_notes = ''x'', f_count = NaN, f_style = ''balanced'', f_mode = ''auto'' \<rparr>
   \<and> \<not> js_le (Fin 3) NaN \<and> \<not> js_le NaN (Fin 50)"
  by (simp add: read_fields_def try_bind_def nullish_def StringToNumber_def trim_def
      trimEnd_def trimStart_def is_ws_def non_decimal_def unsigned_decimal_def is_digit_def
      clamp_count_def)

section \<open>The extractor\<close>

subsection \<open>What a match of the regular expression is\<close>

lemma literal_ci_Some:
  "literal_ci p s = Some r \<Longrightarrow>
     \<exists>m. s = m @ r \<and> map upper_ascii m = map upper_ascii p"
proof (induction p s rule: literal_ci.induct)
  case (1 s)
  then show ?case by simp
next
  case (2 p ps)
  then show ?case by simp
next
  case (3 p ps c cs)
  then have eq: "upper_ascii c = upper_ascii p" and rest: "literal_ci ps cs = Some r"
    by (simp_all split: if_splits)
  from 3(1) [OF eq rest] obtain m where "cs = m @ r" "map upper_ascii m = map upper_ascii ps"
    by blast
  with eq have "c # cs = (c # m) @ r \<and> map upper_ascii (c # m) = map upper_ascii (p # ps)"
    by simp
  then show ?case by blast
qed

lemma greedy_ws_Some:
  "greedy_ws k s = Some r \<Longrightarrow> \<exists>w s'. s = w @ s' \<and> list_all is_ws w \<and> k s' = Some r"
proof (induction s)
  case Nil
  then show ?case by simp
next
  case (Cons c cs)
  show ?case
  proof (cases "is_ws c \<and> greedy_ws k cs = Some r")
    case True
    with Cons.IH obtain w s' where "cs = w @ s'" "list_all is_ws w" "k s' = Some r"
      by blast
    with True have "c # cs = (c # w) @ s' \<and> list_all is_ws (c # w) \<and> k s' = Some r"
      by simp
    then show ?thesis by blast
  next
    case False
    with Cons.prems have "k (c # cs) = Some r"
      by (auto split: if_splits option.splits)
    then have "c # cs = [] @ (c # cs) \<and> list_all is_ws [] \<and> k (c # cs) = Some r"
      by simp
    then show ?thesis by blast
  qed
qed

lemma lazy_any_Some:
  "lazy_any k acc s = Some (cap, r) \<Longrightarrow> \<exists>m s'. s = m @ s' \<and> cap = rev acc @ m \<and> k s' = Some r"
proof (induction s arbitrary: acc)
  case Nil
  then show ?case by (auto split: option.splits)
next
  case (Cons c cs)
  show ?case
  proof (cases "k (c # cs)")
    case None
    with Cons.prems have "lazy_any k (c # acc) cs = Some (cap, r)" by simp
    from Cons.IH [OF this] obtain m s' where
      "cs = m @ s'" "cap = rev (c # acc) @ m" "k s' = Some r" by blast
    then have "c # cs = (c # m) @ s' \<and> cap = rev acc @ (c # m) \<and> k s' = Some r" by simp
    then show ?thesis by blast
  next
    case (Some a)
    with Cons.prems have "cap = rev acc" "a = r" by simp_all
    with Some have "c # cs = [] @ (c # cs) \<and> cap = rev acc @ [] \<and> k (c # cs) = Some r" by simp
    then show ?thesis by blast
  qed
qed

lemma upper_backtick: "upper_ascii c = CHR 0x60 \<longleftrightarrow> c = CHR 0x60"
proof
  assume a: "upper_ascii c = CHR 0x60"
  define n where "n = (of_char c :: nat)"
  show "c = CHR 0x60"
  proof (cases "97 \<le> n \<and> n \<le> 122")
    case True
    then have "upper_ascii c = char_of (n - 32)"
      by (simp add: upper_ascii_def Let_def n_def)
    with a have "(of_char (char_of (n - 32)) :: nat) = of_char (CHR 0x60)"
      by simp
    then have "(n - 32) mod 256 = 96"
      by (simp add: of_char_of)
    moreover from True have "n - 32 < 256" by linarith
    ultimately have "n - 32 = 96" by simp
    with True show ?thesis by linarith
  next
    case False
    with a show ?thesis by (auto simp: upper_ascii_def Let_def n_def split: if_splits)
  qed
next
  assume "c = CHR 0x60"
  then show "upper_ascii c = CHR 0x60" by (simp add: upper_ascii_def)
qed

lemma closing_fence_ci: "map upper_ascii b = map upper_ascii ''```'' \<Longrightarrow> b = ''```''"
proof -
  assume a: "map upper_ascii b = map upper_ascii ''```''"
  have u: "upper_ascii (CHR 0x60) = CHR 0x60"
    by (simp add: upper_backtick)
  from a obtain x y z where b: "b = [x, y, z]"
    by (auto simp: map_eq_Cons_conv)
  with a u have "upper_ascii x = CHR 0x60" "upper_ascii y = CHR 0x60" "upper_ascii z = CHR 0x60"
    by simp_all
  with b show ?thesis by (simp add: upper_backtick)
qed

lemma fence_at_Some:
  assumes "fence_at s = Some cap"
  shows "\<exists>tag w1 w2 post. s = tag @ w1 @ cap @ w2 @ ''```'' @ post \<and>
           map upper_ascii tag = map upper_ascii ''```json'' \<and> list_all is_ws w1 \<and> list_all is_ws w2"
proof -
  from assms obtain r x where
    tag: "literal_ci ''```json'' s = Some r" and
    g: "greedy_ws (lazy_any (greedy_ws (literal_ci ''```'')) []) r = Some (cap, x)"
    by (auto simp: fence_at_def split: option.splits)
  from literal_ci_Some [OF tag] obtain t where t: "s = t @ r" "map upper_ascii t = map upper_ascii ''```json''"
    by blast
  from greedy_ws_Some [OF g] obtain w1 s1 where
    w1: "r = w1 @ s1" "list_all is_ws w1" "lazy_any (greedy_ws (literal_ci ''```'')) [] s1 = Some (cap, x)"
    by blast
  from lazy_any_Some [OF w1(3)] obtain s2 where
    s2: "s1 = cap @ s2" "greedy_ws (literal_ci ''```'') s2 = Some x"
    by auto
  from greedy_ws_Some [OF s2(2)] obtain w2 s3 where
    w2: "s2 = w2 @ s3" "list_all is_ws w2" "literal_ci ''```'' s3 = Some x"
    by blast
  from literal_ci_Some [OF w2(3)] obtain b where b: "s3 = b @ x" "map upper_ascii b = map upper_ascii ''```''"
    by blast
  from b(2) have "b = ''```''"
    by (rule closing_fence_ci)
  with t w1(1,2) s2(1) w2(1,2) b(1) have "s = t @ w1 @ cap @ w2 @ ''```'' @ x \<and>
      map upper_ascii t = map upper_ascii ''```json'' \<and> list_all is_ws w1 \<and> list_all is_ws w2"
    by simp
  then show ?thesis by blast
qed

lemma match_fence_Some:
  "match_fence s = Some cap \<Longrightarrow>
     \<exists>pre tag w1 w2 post. s = pre @ tag @ w1 @ cap @ w2 @ ''```'' @ post \<and>
        map upper_ascii tag = map upper_ascii ''```json'' \<and> list_all is_ws w1 \<and> list_all is_ws w2"
proof (induction s)
  case Nil
  then have "fence_at [] = Some cap" by simp
  from fence_at_Some [OF this] obtain tag w1 w2 post where
    h: "[] = tag @ w1 @ cap @ w2 @ ''```'' @ post \<and>
      map upper_ascii tag = map upper_ascii ''```json'' \<and> list_all is_ws w1 \<and> list_all is_ws w2"
    by blast
  then show ?case by simp
next
  case (Cons c cs)
  show ?case
  proof (cases "fence_at (c # cs)")
    case None
    with Cons.prems have "match_fence cs = Some cap" by simp
    from Cons.IH [OF this] obtain pre tag w1 w2 post where
      "cs = pre @ tag @ w1 @ cap @ w2 @ ''```'' @ post"
      "map upper_ascii tag = map upper_ascii ''```json''" "list_all is_ws w1" "list_all is_ws w2"
      by blast
    then have "c # cs = (c # pre) @ tag @ w1 @ cap @ w2 @ ''```'' @ post \<and>
      map upper_ascii tag = map upper_ascii ''```json'' \<and> list_all is_ws w1 \<and> list_all is_ws w2"
      by simp
    then show ?thesis by blast
  next
    case (Some a)
    with Cons.prems have "fence_at (c # cs) = Some cap" by simp
    from fence_at_Some [OF this] obtain tag w1 w2 post where
      h: "c # cs = tag @ w1 @ cap @ w2 @ ''```'' @ post \<and>
        map upper_ascii tag = map upper_ascii ''```json'' \<and> list_all is_ws w1 \<and> list_all is_ws w2"
      by blast
    then have "c # cs = [] @ tag @ w1 @ cap @ w2 @ ''```'' @ post" by simp
    with h show ?thesis by blast
  qed
qed


subsection \<open>The bracket scan finds the first opening and the last closing position\<close>

lemma indexOf_takeWhile:
  "indexOf s x = (if x \<in> set s then int (length (takeWhile (\<lambda>c. c \<noteq> x) s)) else - 1)"
  by (induction s) (auto simp: Let_def)

lemma length_takeWhile_conj:
  "length (takeWhile (\<lambda>c. P c \<and> Q c) xs) = min (length (takeWhile P xs)) (length (takeWhile Q xs))"
  by (induction xs) auto

lemma takeWhile_full: "length (takeWhile P xs) < length xs \<longleftrightarrow> (\<exists>x\<in>set xs. \<not> P x)"
  by (induction xs) auto

lemma first_opening_scan:
  "Math_min_list (filter (\<lambda>n. n \<noteq> - 1) [indexOf s CHR ''['', indexOf s CHR ''{''])
     = map_option int (first_opening s)"
proof -
  let ?a = "length (takeWhile (\<lambda>c. c \<noteq> CHR ''['') s)"
  let ?b = "length (takeWhile (\<lambda>c. c \<noteq> CHR ''{'') s)"
  have a: "CHR ''['' \<in> set s \<longleftrightarrow> ?a < length s"
    by (auto simp: takeWhile_full)
  have b: "CHR ''{'' \<in> set s \<longleftrightarrow> ?b < length s"
    by (auto simp: takeWhile_full)
  have la: "?a \<le> length s" and lb: "?b \<le> length s"
    by (simp_all add: length_takeWhile_le)
  show ?thesis
    unfolding first_opening_def Let_def length_takeWhile_conj indexOf_takeWhile
    using a b la lb by (auto simp: min_def)
qed

lemma last_closing_scan:
  "max (lastIndexOf s CHR '']'') (lastIndexOf s CHR ''}'')
     = (case last_closing s of None \<Rightarrow> - 1 | Some j \<Rightarrow> int j)"
proof -
  let ?a = "length (takeWhile (\<lambda>c. c \<noteq> CHR '']'') (rev s))"
  let ?b = "length (takeWhile (\<lambda>c. c \<noteq> CHR ''}'') (rev s))"
  have a: "CHR '']'' \<in> set s \<longleftrightarrow> ?a < length s"
    using takeWhile_full [of "\<lambda>c. c \<noteq> CHR '']''" "rev s"] by auto
  have b: "CHR ''}'' \<in> set s \<longleftrightarrow> ?b < length s"
    using takeWhile_full [of "\<lambda>c. c \<noteq> CHR ''}''" "rev s"] by auto
  have la: "?a \<le> length s" and lb: "?b \<le> length s"
    using length_takeWhile_le [of _ "rev s"] by simp_all
  show ?thesis
    unfolding last_closing_def lastIndexOf_def Let_def length_takeWhile_conj indexOf_takeWhile
    using a b la lb by (auto simp: min_def max_def)
qed

lemma slice_span: "i < j \<Longrightarrow> slice s (int i) (int j + 1) = take (j - i + 1) (drop i s)"
proof -
  assume "i < j"
  then have "nat (int j + 1) - nat (int i) = j - i + 1" by linarith
  then show ?thesis by (simp add: slice_def)
qed

lemma bracket_scan_spec: "bracket_scan rt s = spec_bracket_scan rt s"
  unfolding bracket_scan_def spec_bracket_scan_def Let_def first_opening_scan last_closing_scan
  by (cases "first_opening s"; cases "last_closing s") (simp_all add: slice_span)

text \<open>The two positions are what their names say.\<close>

lemma takeWhile_position:
  "length (takeWhile P xs) = i \<and> i < length xs \<longleftrightarrow>
     i < length xs \<and> \<not> P (xs ! i) \<and> (\<forall>k<i. P (xs ! k))"
proof
  assume l: "length (takeWhile P xs) = i \<and> i < length xs"
  then have "\<not> P (xs ! i)"
    using nth_length_takeWhile [of P xs] by simp
  moreover have "P (xs ! k)" if "k < i" for k
  proof -
    from that l have "k < length (takeWhile P xs)" by simp
    then have "takeWhile P xs ! k \<in> set (takeWhile P xs)" and "takeWhile P xs ! k = xs ! k"
      by (rule nth_mem, rule takeWhile_nth)
    then show ?thesis using set_takeWhileD [of "xs ! k" P xs] by simp
  qed
  ultimately show "i < length xs \<and> \<not> P (xs ! i) \<and> (\<forall>k<i. P (xs ! k))"
    using l by simp
next
  assume r: "i < length xs \<and> \<not> P (xs ! i) \<and> (\<forall>k<i. P (xs ! k))"
  then have "takeWhile P xs = take i xs"
    by (intro takeWhile_eq_take_P_nth) auto
  with r show "length (takeWhile P xs) = i \<and> i < length xs" by simp
qed

lemma first_opening_Some:
  "first_opening s = Some i \<longleftrightarrow>
     i < length s \<and> s ! i \<in> {CHR ''['', CHR ''{''} \<and>
     (\<forall>k<i. s ! k \<notin> {CHR ''['', CHR ''{''})"
  using takeWhile_position [of "\<lambda>c. c \<noteq> CHR ''['' \<and> c \<noteq> CHR ''{''" s i]
  by (auto simp: first_opening_def Let_def)

lemma last_closing_Some:
  "last_closing s = Some j \<longleftrightarrow>
     j < length s \<and> s ! j \<in> {CHR '']'', CHR ''}''} \<and>
     (\<forall>k<length s. j < k \<longrightarrow> s ! k \<notin> {CHR '']'', CHR ''}''})"
proof -
  let ?Q = "\<lambda>c. c \<noteq> CHR '']'' \<and> c \<noteq> CHR ''}''"
  let ?len = "length s"
  let ?n = "?len - 1 - j"
  have "last_closing s = Some j \<longleftrightarrow>
          j < ?len \<and> (length (takeWhile ?Q (rev s)) = ?n \<and> ?n < length (rev s))"
    by (auto simp: last_closing_def Let_def)
  also have "\<dots> \<longleftrightarrow> j < ?len \<and> \<not> ?Q (rev s ! ?n) \<and> (\<forall>k<?n. ?Q (rev s ! k))"
    using takeWhile_position [of ?Q "rev s" ?n] by auto
  also have "\<dots> \<longleftrightarrow> j < ?len \<and> \<not> ?Q (s ! j) \<and> (\<forall>k<?len. j < k \<longrightarrow> ?Q (s ! k))"
  proof (cases "j < ?len")
    case True
    then have nth_j: "rev s ! ?n = s ! j"
      by (simp add: rev_nth)
    have "(\<forall>k<?n. ?Q (rev s ! k)) \<longleftrightarrow> (\<forall>k<?len. j < k \<longrightarrow> ?Q (s ! k))"
    proof (intro iffI allI impI)
      fix k assume a: "\<forall>k<?n. ?Q (rev s ! k)" and k: "k < ?len" "j < k"
      then have "?len - 1 - k < ?n" by linarith
      with a have "?Q (rev s ! (?len - 1 - k))" by blast
      moreover have "rev s ! (?len - 1 - k) = s ! k"
        using k by (simp add: rev_nth)
      ultimately show "?Q (s ! k)" by simp
    next
      fix k assume a: "\<forall>k<?len. j < k \<longrightarrow> ?Q (s ! k)" and k: "k < ?n"
      then have "?len - Suc k < ?len" "j < ?len - Suc k" by linarith+
      with a have "?Q (s ! (?len - Suc k))" by blast
      moreover have "rev s ! k = s ! (?len - Suc k)"
        using k by (simp add: rev_nth)
      ultimately show "?Q (rev s ! k)" by simp
    qed
    with nth_j True show ?thesis by simp
  next
    case False
    then show ?thesis by simp
  qed
  finally show ?thesis by auto
qed

lemma no_bracket_scan:
  assumes "set s \<inter> {CHR ''['', CHR ''{'', CHR '']'', CHR ''}''} = {}"
  shows "bracket_scan rt s = Inl malformed"
proof -
  have "CHR ''['' \<notin> set s" "CHR ''{'' \<notin> set s" using assms by auto
  then show ?thesis
    by (simp add: bracket_scan_def indexOf_takeWhile)
qed

lemma match_sample_fenced: \<open>match_fence sample_fenced = Some ''{"a":1}''\<close>
  by code_simp

lemma match_sample_empty_fence: "match_fence sample_empty_fence = Some []"
  by code_simp

lemma match_sample_unfenced: "match_fence sample_unfenced = None"
  by code_simp

subsection \<open>Claims about the extractor\<close>

text \<open>
  C4, as stated: whenever the regular expression finds a fence tagged as JSON, the
  extractor parses exactly its interior and never falls back to the bracket scan.  This
  fails for a fence whose interior is empty: \<open>if (fenced?.[1])\<close> treats the empty capture
  as no match.  In the sample text the fence is found with an empty interior, which is
  no JSON text, and the extraction still succeeds, through the bracket scan.
\<close>

theorem extractJson_empty_fence_falls_back:
  "match_fence sample_empty_fence = Some []
   \<and> JSON_parse sample_runtime [] = Inl (SyntaxError ''Unexpected token'')
   \<and> extractJson sample_runtime sample_empty_fence = Inr (JObj [(''a'', JNum (Fin 1))])"
  by code_simp

text \<open>
  C4, amended: when the fence found has a non-empty interior, the extractor returns
  whatever \<open>JSON.parse\<close> makes of exactly that interior, a failure included, and the
  bracket scan plays no part; when the interior is empty the result is that of the
  bracket scan.  The interior is the text between the tag \<open>```json\<close> (in any case) and
  a closing \<open>```\<close>, without the white space around it.
\<close>

theorem extractJson_fenced:
  "match_fence s = Some cap \<Longrightarrow>
     (cap \<noteq> [] \<longrightarrow> extractJson rt s = JSON_parse rt cap)
     \<and> (cap = [] \<longrightarrow> extractJson rt s = bracket_scan rt s)
     \<and> (\<exists>pre tag w1 w2 post.
           s = pre @ tag @ w1 @ cap @ w2 @ ''```'' @ post
           \<and> map upper_ascii tag = map upper_ascii ''```json''
           \<and> list_all is_ws w1 \<and> list_all is_ws w2)"
  using match_fence_Some [of s cap] by (simp add: extractJson_def)

theorem extractJson_fenced_witness:
  \<open>match_fence sample_fenced = Some ''{"a":1}''
   \<and> extractJson sample_runtime sample_fenced = JSON_parse sample_runtime ''{"a":1}''
   \<and> extractJson sample_runtime sample_fenced = Inr (JObj [(''a'', JNum (Fin 1))])\<close>
  using extractJson_fenced [OF match_sample_fenced, of sample_runtime]
  by (simp add: match_sample_fenced sample_runtime_def)

text \<open>
  C5.  Without a fence the extractor parses the span from the first \<open>[\<close> or \<open>{\<close> to
  the last \<open>]\<close> or \<open>}\<close>, both included, provided the first exists and the last lies
  strictly after it, and fails otherwise; for the sample text that span is
  \<open>{"a":1}\<close>, so the result is what \<open>JSON.parse\<close> makes of it.
\<close>

theorem extractJson_unfenced:
  \<open>(match_fence s = None \<longrightarrow> extractJson rt s = spec_bracket_scan rt s)
   \<and> extractJson rt ''Here is the result: {"a":1} thanks'' = JSON_parse rt ''{"a":1}''\<close>
proof
  show "match_fence s = None \<longrightarrow> extractJson rt s = spec_bracket_scan rt s"
    by (simp add: extractJson_def bracket_scan_spec)
  show \<open>extractJson rt ''Here is the result: {"a":1} thanks'' = JSON_parse rt ''{"a":1}''\<close>
    by code_simp
qed

theorem extractJson_unfenced_witness:
  \<open>match_fence sample_unfenced = None
   \<and> first_opening sample_unfenced = Some 20 \<and> last_closing sample_unfenced = Some 26
   \<and> extractJson sample_runtime sample_unfenced = Inr (JObj [(''a'', JNum (Fin 1))])\<close>
proof -
  have f: "first_opening sample_unfenced = Some 20" and l: "last_closing sample_unfenced = Some 26"
    by code_simp+
  have "extractJson sample_runtime sample_unfenced = spec_bracket_scan sample_runtime sample_unfenced"
    using extractJson_unfenced [of sample_unfenced sample_runtime] match_sample_unfenced by simp
  moreover have "spec_bracket_scan sample_runtime sample_unfenced = Inr (JObj [(''a'', JNum (Fin 1))])"
    by code_simp
  ultimately show ?thesis using f l match_sample_unfenced by simp
qed

text \<open>
  C6.  A text without a fence and without any of the four bracket characters makes the
  extractor throw its own error, \<open>Model did not return valid JSON\<close>.
\<close>

theorem extractJson_no_brackets:
  "match_fence s = None \<Longrightarrow> set s \<inter> {CHR ''['', CHR ''{'', CHR '']'', CHR ''}''} = {} \<Longrightarrow>
     extractJson rt s = Inl (Error ''Model did not return valid JSON'')"
  using no_bracket_scan [of s rt] by (simp add: extractJson_def malformed_def)

theorem extractJson_no_brackets_witness:
  "match_fence ''I cannot help with that.'' = None
   \<and> set ''I cannot help with that.'' \<inter> {CHR ''['', CHR ''{'', CHR '']'', CHR ''}''} = {}
   \<and> extractJson sample_runtime ''I cannot help with that.''
       = Inl (Error ''Model did not return valid JSON'')"
proof -
  have m: "match_fence ''I cannot help with that.'' = None"
    by code_simp
  have b: "set ''I cannot help with that.'' \<inter> {CHR ''['', CHR ''{'', CHR '']'', CHR ''}''} = {}"
    by simp
  from extractJson_no_brackets [OF m b, of sample_runtime] m b show ?thesis by simp
qed

section \<open>The prompt\<close>

lemma trimEnd_keep: "\<not> is_ws c \<Longrightarrow> trimEnd (xs @ c # ys) = xs @ c # trimEnd ys"
  by (simp add: trimEnd_def dropWhile_append)

lemma trim_keeps_middle:
  assumes "p \<noteq> []" "\<not> is_ws (hd p)" "\<exists>c\<in>set q. \<not> is_ws c"
  shows "sublist r (trim (p @ r @ q))"
proof -
  from assms(1,2) have "trimStart (p @ r @ q) = p @ r @ q"
    by (cases p) (simp_all add: trimStart_def)
  moreover from assms(3) obtain q1 c q2 where q: "q = q1 @ c # q2" "\<not> is_ws c"
    by (meson split_list)
  then have "trimEnd (p @ r @ q) = p @ r @ (q1 @ c # trimEnd q2)"
    using trimEnd_keep [of c "p @ r @ q1" q2] by simp
  ultimately have "trim (p @ r @ q) = p @ r @ (q1 @ c # trimEnd q2)"
    by (simp add: trim_def)
  then show ?thesis
    by (simp add: sublist_def) blast
qed

lemma prompt_contains_rules:
  "sublist (if mode = ''questions'' then questions_rules
            else if mode = ''short_notes'' then short_notes_rules else auto_rules)
     (buildFlashcardPrompt rt userText count style mode)"
proof -
  let ?r = "if mode = ''questions'' then questions_rules
            else if mode = ''short_notes'' then short_notes_rules else auto_rules"
  let ?p = "''You are an expert flashcard creator.'' @ nl @
         ''Return ONLY valid JSON, no extra text.'' @ nl @
         nl @
         ''Task:'' @ nl @
         ''- Create '' @ num_text rt count @ '' high-quality flashcards.'' @ nl @
         ''- Each flashcard MUST feel like a real flashcard: short, testable FRONT and a complete BACK.'' @ nl @
         nl"
  have "\<exists>q. buildFlashcardPrompt rt userText count style mode = trim (?p @ ?r @ q) \<and> CHR ''O'' \<in> set q"
    unfolding buildFlashcardPrompt_def Let_def
    by (rule exI [of _ "nl @ nl @ ''Output schema (exact):'' @ _"]) (simp only: append_assoc, simp)
  then obtain q where q: "buildFlashcardPrompt rt userText count style mode = trim (?p @ ?r @ q)"
    "CHR ''O'' \<in> set q" by blast
  have "\<not> is_ws (CHR ''O'')" by (simp add: is_ws_def)
  with q(2) have "\<exists>c\<in>set q. \<not> is_ws c" by blast
  moreover have "?p \<noteq> []" "\<not> is_ws (hd ?p)" by (simp_all add: is_ws_def)
  ultimately show ?thesis
    unfolding q(1) by (rule trim_keeps_middle [rotated 2])
qed


text \<open>
  C8.  Whatever the input text, the count and the style: for the mode \<open>questions\<close> the
  prompt contains the question-bank sentence, for \<open>short_notes\<close> the short-notes
  sentence and for \<open>auto\<close> the auto-detection sentence, each character for character
  (the final \<open>trim\<close> only removes white space at the two ends).
\<close>

theorem prompt_has_mode_sentence:
  "sublist questions_rules (buildFlashcardPrompt rt userText count style ''questions'')
   \<and> sublist short_notes_rules (buildFlashcardPrompt rt userText count style ''short_notes'')
   \<and> sublist auto_rules (buildFlashcardPrompt rt userText count style ''auto'')"
  using prompt_contains_rules [of "''questions''" rt userText count style]
    prompt_contains_rules [of "''short_notes''" rt userText count style]
    prompt_contains_rules [of "''auto''" rt userText count style]
  by simp

lemma prompt_other_mode:
  "m \<noteq> ''questions'' \<Longrightarrow> m \<noteq> ''short_notes'' \<Longrightarrow>
     buildFlashcardPrompt rt userText count style m
       = buildFlashcardPrompt rt userText count style ''auto''"
  by (simp add: buildFlashcardPrompt_def)

section \<open>The cleaning step\<close>

lemma array_slice0_take: "0 \<le> x \<Longrightarrow> array_slice0 ys (Fin x) = take (nat \<lfloor>x\<rfloor>) ys"
  by (simp add: array_slice0_def ToInteger_def Let_def min_def)

text \<open>
  When no conversion throws, the step keeps the cards with a question and an answer, in
  their order, up to the whole part of the count.
\<close>

lemma cleaned_cards_kept:
  "try_map (clean_card rt) entries = Inr cards \<Longrightarrow> 0 \<le> x \<Longrightarrow>
     cleaned_cards rt entries (Fin x)
       = Inr (take (nat \<lfloor>x\<rfloor>) (filter (\<lambda>c. question c \<noteq> [] \<and> answer c \<noteq> []) cards))"
  by (simp add: cleaned_cards_def try_bind_def array_slice0_take)

lemma cleaned_cards_throws:
  "try_map (clean_card rt) entries = Inl e \<Longrightarrow> cleaned_cards rt entries n = Inl e"
  by (simp add: cleaned_cards_def try_bind_def)

text \<open>A card of two texts and no tags: both texts are trimmed.\<close>

lemma clean_card_texts:
  "clean_card rt (JObj [(''question'', JStr q), (''answer'', JStr a)])
     = Inr \<lparr> question = trim q, answer = trim a, tags = [] \<rparr>"
  by (simp add: clean_card_def try_bind_def nullish_def)

text \<open>The two examples of the specification, and one with white space to trim.\<close>

lemma cleaning_drops_empty_answer:
  "cleaned_cards rt
     [JObj [(''question'', JStr ''Q1''), (''answer'', JStr [])],
      JObj [(''question'', JStr ''Q2''), (''answer'', JStr ''A2'')]] (Fin 5)
    = Inr [\<lparr> question = ''Q2'', answer = ''A2'', tags = [] \<rparr>]"
  by code_simp

lemma cleaning_trims:
  "cleaned_cards rt
     [JObj [(''question'', JStr ''  Q1 ''), (''answer'', JStr ([CHR 0x20, CHR 0x0A, CHR 0x09]))],
      JObj [(''question'', JStr ([CHR 0x09] @ ''Q2'' @ [CHR 0x0A])), (''answer'', JStr '' A2  '')]]
     (Fin 5)
    = Inr [\<lparr> question = ''Q2'', answer = ''A2'', tags = [] \<rparr>]"
  by code_simp

lemma ten_entries_cards: "try_map (clean_card rt) ten_entries = Inr (map sample_card [1..<11])"
  by code_simp

lemma cleaning_keeps_first_three:
  "cleaned_cards rt ten_entries (Fin 3) = Inr [sample_card 1, sample_card 2, sample_card 3]"
  by code_simp

lemma cleaning_caps_tags:
  "clean_card rt
     (JObj [(''question'', JStr ''Q''), (''answer'', JStr ''A''),
            (''tags'', JArr [JStr ''a'', JStr ''b'', JStr ''c'', JStr ''d'', JStr ''e'',
                             JStr ''f'', JStr ''g''])])
    = Inr \<lparr> question = ''Q'', answer = ''A'', tags = [''a'', ''b'', ''c'', ''d'', ''e'', ''f''] \<rparr>"
  by code_simp

text \<open>
  C3.  The claim: for any parsed \<open>flashcards\<close> array the cleaning step drops the entries
  with an empty question or answer, caps the tags at 6 and returns the first \<open>count\<close>
  survivors; no error is surfaced.  The code converts every tag of every entry with
  \<open>String\<close> before it caps the tags and before it drops anything, and \<open>String\<close> of an
  object with an own \<open>toString\<close> property throws.  For the single entry with an empty
  question, an empty answer and the tags \<open>1\<close> to \<open>6\<close> followed by \<open>{"toString": 1}\<close>
  the step throws a \<open>TypeError\<close> (the handler then answers 500), where the claim gives
  the empty list: the entry is to be dropped, and the seventh tag is beyond the cap.
  With the first six tags only, the code does give the empty list.
\<close>

theorem cleaning_throws_at_unconvertible_tag:
  "cleaned_cards rt
     [JObj [(''question'', JStr []), (''answer'', JStr []),
            (''tags'', JArr [JNum (Fin 1), JNum (Fin 2), JNum (Fin 3), JNum (Fin 4),
                             JNum (Fin 5), JNum (Fin 6), JObj [(''toString'', JNum (Fin 1))]])]]
     (Fin 5)
    = Inl (TypeError ''Cannot convert object to primitive value'')
   \<and> cleaned_cards rt
     [JObj [(''question'', JStr []), (''answer'', JStr []),
            (''tags'', JArr [JNum (Fin 1), JNum (Fin 2), JNum (Fin 3), JNum (Fin 4),
                             JNum (Fin 5), JNum (Fin 6)])]]
     (Fin 5)
    = Inr []"
  by (simp add: cleaned_cards_def clean_card_def try_bind_def nullish_def not_primitive_def
      trim_def trimEnd_def trimStart_def array_slice0_def ToInteger_def)

section \<open>The handler\<close>

subsection \<open>The access token\<close>

lemma access_token_absent: "access_token None = []"
  by (simp add: access_token_def startsWith_def toLowerCase_def)

lemma access_token_empty_iff:
  "access_token (Some h) = [] \<longleftrightarrow>
     \<not> startsWith (toLowerCase h) ''bearer '' \<or> length h \<le> 7"
  by (simp add: access_token_def Let_def)

subsection \<open>Where the storage writes are\<close>

lemma generate_writes:
  "list_ex is_write (snd (generate rt sv k f u pl used)) \<Longrightarrow>
     \<exists>r. fst (generate rt sv k f u pl used) = Inr r \<and> status r = 200"
  by (auto simp: generate_def Let_def prepend_def json_response_def try_bind_def
      split: fetch_result.splits sum.splits prod.splits option.splits if_splits)

lemma serve_user_writes:
  "list_ex is_write (snd (serve_user rt sv k f u)) \<Longrightarrow>
     \<exists>r. fst (serve_user rt sv k f u) = Inr r \<and> status r = 200"
  by (auto simp: serve_user_def Let_def prepend_def
      split: sum.splits if_splits dest: generate_writes)

lemma POST_try_writes:
  "list_ex is_write (snd (POST_try rt env sv req)) \<Longrightarrow>
     \<exists>r. fst (POST_try rt env sv req) = Inr r \<and> status r = 200"
  by (auto simp: POST_try_def Let_def prepend_def
      split: sum.splits option.splits if_splits dest: serve_user_writes)

lemma generate_fetches:
  "Fetch_completion k (buildFlashcardPrompt rt (f_notes f) (f_count f) (f_style f) (f_mode f))
     \<in> set (snd (generate rt sv k f u pl used))"
  by (simp add: generate_def Let_def prepend_def)

lemma js_le_not_gt: "js_le a b \<Longrightarrow> \<not> js_gt a b"
  by (cases a; cases b) simp_all

text \<open>The handler up to the quota check, for a request that gets there.\<close>

lemma POST_try_reaches_user:
  assumes "read_fields rt (body_of req) = Inr f" and "f_notes f \<noteq> []"
    and "GROQ_API_KEY env = Some k" and "k \<noteq> []"
    and "\<not> unset (NEXT_PUBLIC_SUPABASE_URL env)" and "\<not> unset (SUPABASE_SERVICE_ROLE_KEY env)"
    and "createClient sv (env_text (NEXT_PUBLIC_SUPABASE_URL env))
           (env_text (SUPABASE_SERVICE_ROLE_KEY env)) = None"
    and "access_token (req_authorization req) = tok" and "tok \<noteq> []"
    and "auth_getUser sv tok = Inr (Some uid)"
  shows "POST_try rt env sv req = prepend [Auth_getUser tok] (serve_user rt sv k f uid)"
proof -
  from assms(3,4) have "\<not> unset (GROQ_API_KEY env)" "env_text (GROQ_API_KEY env) = k"
    by (simp_all add: unset_def env_text_def)
  with assms show ?thesis
    by (simp add: POST_try_def Let_def)
qed

lemma POST_of_try:
  "POST rt env sv req =
     (case fst (POST_try rt env sv req) of
        Inl err \<Rightarrow> json_response [(''error'', JStr (message err))] 500
      | Inr r \<Rightarrow> r,
      snd (POST_try rt env sv req))"
  by (simp add: POST_def split: prod.splits sum.splits)

lemma POST_thrown_is_500:
  "fst (POST_try rt env sv req) = Inl e \<Longrightarrow>
     fst (POST rt env sv req) = json_response [(''error'', JStr (message e))] 500"
  by (simp add: POST_of_try)

subsection \<open>The mode is not validated\<close>

lemma read_fields_mode_auto:
  assumes "map_of kvs ''mode'' = Some (JStr m)"
  shows "read_fields rt (JObj ((''mode'', JStr ''auto'') # kvs))
           = (case read_fields rt (JObj kvs) of
                Inl e \<Rightarrow> Inl e
              | Inr f \<Rightarrow> Inr (f\<lparr>f_mode := ''auto''\<rparr>))"
    and "read_fields rt (JObj kvs) = Inr f \<Longrightarrow> f_mode f = m"
  using assms
  by (auto simp: read_fields_def try_bind_def nullish_def split: sum.splits option.splits)

lemma generate_mode_auto:
  assumes "f_mode f \<noteq> ''questions''" and "f_mode f \<noteq> ''short_notes''"
  shows "fst (generate rt sv k (f\<lparr>f_mode := ''auto''\<rparr>) u pl used)
           = fst (generate rt sv k f u pl used)"
proof -
  let ?p = "buildFlashcardPrompt rt (f_notes f) (f_count f) (f_style f) (f_mode f)"
  have p: "buildFlashcardPrompt rt (f_notes f) (f_count f) (f_style f) ''auto'' = ?p"
    using assms prompt_other_mode [of "f_mode f" rt "f_notes f" "f_count f" "f_style f"] by simp
  show ?thesis
  proof (cases "fetch_completion sv k ?p")
    case (Fetch_rejects e)
    then show ?thesis by (simp add: generate_def Let_def prepend_def p)
  next
    case (Fetch_response st body)
    show ?thesis
    proof (cases "try_bind body (\<lambda>b. read_completion rt b (f_count f))")
      case (Inl e)
      with Fetch_response show ?thesis by (simp add: generate_def Let_def prepend_def p)
    next
      case (Inr x)
      show ?thesis
      proof (cases x)
        case (Inl early)
        with Inr Fetch_response show ?thesis by (simp add: generate_def Let_def prepend_def p)
      next
        case r: (Inr tc)
        obtain title cleaned where "tc = (title, cleaned)" by (cases tc)
        with r Inr Fetch_response show ?thesis by (simp add: generate_def Let_def prepend_def p)
      qed
    qed
  qed
qed

lemma serve_user_mode_auto:
  assumes "f_mode f \<noteq> ''questions''" and "f_mode f \<noteq> ''short_notes''"
  shows "fst (serve_user rt sv k (f\<lparr>f_mode := ''auto''\<rparr>) u) = fst (serve_user rt sv k f u)"
  by (simp add: serve_user_def Let_def prepend_def generate_mode_auto [OF assms]
      split: sum.splits)


lemma POST_try_mode_auto:
  assumes "req_body req = Some (JObj kvs)" and "map_of kvs ''mode'' = Some (JStr m)"
    and "m \<noteq> ''questions''" and "m \<noteq> ''short_notes''"
  shows "fst (POST_try rt env sv (req\<lparr>req_body := Some (JObj ((''mode'', JStr ''auto'') # kvs))\<rparr>))
           = fst (POST_try rt env sv req)"
proof (cases "read_fields rt (JObj kvs)")
  case (Inl e)
  with assms(1) read_fields_mode_auto(1) [OF assms(2), of rt] show ?thesis
    by (simp add: POST_try_def body_of_def)
next
  case (Inr f)
  with read_fields_mode_auto(2) [OF assms(2), of rt f] assms(3,4)
  have m: "f_mode f \<noteq> ''questions''" "f_mode f \<noteq> ''short_notes''" by simp_all
  from Inr assms(1) read_fields_mode_auto(1) [OF assms(2), of rt] show ?thesis
    by (simp add: POST_try_def body_of_def Let_def prepend_def serve_user_mode_auto [OF m]
        split: option.splits sum.splits)
qed

subsection \<open>Claims about the handler\<close>

lemma quota_95_10: "js_gt (js_add (Fin 95) (Fin 10)) (Fin 100)"
  using js_add_whole [of 95 10] by simp

lemma quota_95_5: "js_le (js_add (Fin 95) (Fin 5)) (Fin 100)"
  using js_add_whole [of 95 5] by simp

text \<open>
  C1, as stated: whenever the stored usage plus the clamped count exceeds 100, the
  handler answers 402 and does not call the completion service.  The code compares the
  sum it computes, a double: for a stored usage of 97 and the count
  \<open>3.0000000000000004\<close> (that is \<open>3 + 2^-51\<close>, which the clamp keeps) the exact sum
  exceeds 100, the computed sum is 100, and the handler calls the completion service
  and answers 200.
\<close>

theorem quota_passes_above_100:
  "(97 :: rat) + (3 + 1 / 2 ^ 51) > 100
   \<and> read_fields sample_runtime
        (body_of (sample_request (3 + 1 / 2 ^ 51) ''auto'' (Some ''Bearer tok'')))
       = Inr (sample_fields (3 + 1 / 2 ^ 51) ''auto'')
   \<and> select_usage sample_services_97 ''u1'' = Inr (JObj [(''flashcards_used'', JNum (Fin 97))])
   \<and> js_add (Fin 97) (Fin (3 + 1 / 2 ^ 51)) = Fin 100
   \<and> status (fst (POST sample_runtime sample_env sample_services_97
                      (sample_request (3 + 1 / 2 ^ 51) ''auto'' (Some ''Bearer tok'')))) = 200
   \<and> list_ex is_completion_call
        (snd (POST sample_runtime sample_env sample_services_97
                (sample_request (3 + 1 / 2 ^ 51) ''auto'' (Some ''Bearer tok''))))"
  by code_simp

text \<open>
  C1, amended: with \<open>used + count\<close> as the code computes it, the exact sum rounded to
  the nearest double.  A request that reaches the quota check for a free-plan user
  (fields read, notes not empty, configuration present, client built, token resolved
  to a user, profile read with a plan other than \<open>premium\<close>, usage row read and its
  counter converted to \<open>used\<close>): if the computed sum exceeds 100 the response is 402,
  its payload carries \<open>used\<close> and \<open>limit = 100\<close>, and the only calls made are the
  identity lookup and the two row reads, so the completion service is not called; if
  the computed sum is at most 100 the handler goes on to call the completion service.
  For whole numbers of a sum below \<open>2^53\<close> in magnitude the computed sum is the exact
  sum.  With 95 used, a count of 10 is rejected with \<open>used = 95\<close> and \<open>limit = 100\<close>,
  and a count of 5 passes.
\<close>

theorem free_plan_quota:
  assumes "read_fields rt (body_of req) = Inr f" and "f_notes f \<noteq> []"
    and "GROQ_API_KEY env = Some k" and "k \<noteq> []"
    and "\<not> unset (NEXT_PUBLIC_SUPABASE_URL env)" and "\<not> unset (SUPABASE_SERVICE_ROLE_KEY env)"
    and "createClient sv (env_text (NEXT_PUBLIC_SUPABASE_URL env))
           (env_text (SUPABASE_SERVICE_ROLE_KEY env)) = None"
    and "access_token (req_authorization req) = tok" and "tok \<noteq> []"
    and "auth_getUser sv tok = Inr (Some uid)"
    and "select_profiles sv uid = Inr profile" and "get_prop profile ''plan'' \<noteq> JStr ''premium''"
    and "select_usage sv uid = Inr usageRow"
    and "js_Number rt (nullish (get_prop usageRow ''flashcards_used'') (JNum (Fin 0))) = Inr used"
  shows "(js_gt (js_add used (f_count f)) (Fin 100) \<longrightarrow>
            status (fst (POST rt env sv req)) = 402
            \<and> get_prop (payload (fst (POST rt env sv req))) ''used'' = JNum used
            \<and> get_prop (payload (fst (POST rt env sv req))) ''limit'' = JNum (Fin 100)
            \<and> snd (POST rt env sv req) = [Auth_getUser tok, Select_profiles uid, Select_usage uid])
       \<and> (js_le (js_add used (f_count f)) (Fin 100) \<longrightarrow>
            Fetch_completion k
              (buildFlashcardPrompt rt (f_notes f) (f_count f) (f_style f) (f_mode f))
              \<in> set (snd (POST rt env sv req)))
       \<and> (\<forall>a b. used = Fin (of_int a) \<and> f_count f = Fin (of_int b) \<and> \<bar>a + b\<bar> < 2 ^ 53 \<longrightarrow>
            js_add used (f_count f) = Fin (of_int (a + b)))
       \<and> (used = Fin 95 \<and> f_count f = Fin 10 \<longrightarrow>
            status (fst (POST rt env sv req)) = 402
            \<and> get_prop (payload (fst (POST rt env sv req))) ''used'' = JNum (Fin 95)
            \<and> get_prop (payload (fst (POST rt env sv req))) ''limit'' = JNum (Fin 100))
       \<and> (used = Fin 95 \<and> f_count f = Fin 5 \<longrightarrow>
            Fetch_completion k
              (buildFlashcardPrompt rt (f_notes f) (f_count f) (f_style f) (f_mode f))
              \<in> set (snd (POST rt env sv req)))"
proof -
  let ?calls = "[Auth_getUser tok, Select_profiles uid, Select_usage uid]"
  have reach: "POST_try rt env sv req = prepend [Auth_getUser tok] (serve_user rt sv k f uid)"
    using assms(1-10) by (rule POST_try_reaches_user)
  have reject: "POST rt env sv req = (json_response (quota_payload rt used) 402, ?calls)"
    if "js_gt (js_add used (f_count f)) (Fin 100)"
    using that assms(11-14) by (simp add: POST_of_try reach serve_user_def Let_def prepend_def)
  have pass: "Fetch_completion k
                (buildFlashcardPrompt rt (f_notes f) (f_count f) (f_style f) (f_mode f))
                \<in> set (snd (POST rt env sv req))"
    if "\<not> js_gt (js_add used (f_count f)) (Fin 100)"
  proof -
    from that assms(11-14)
    have "snd (POST rt env sv req) = ?calls @ snd (generate rt sv k f uid Free used)"
      by (simp add: POST_of_try reach serve_user_def Let_def prepend_def)
    then show ?thesis using generate_fetches [of k rt f sv uid Free used] by simp
  qed
  have shape: "status (json_response (quota_payload rt used) 402) = 402"
    "get_prop (payload (json_response (quota_payload rt used) 402)) ''used'' = JNum used"
    "get_prop (payload (json_response (quota_payload rt used) 402)) ''limit'' = JNum (Fin 100)"
    by (simp_all add: json_response_def quota_payload_def)
  show ?thesis
  proof (intro conjI impI allI)
    assume g: "js_gt (js_add used (f_count f)) (Fin 100)"
    from reject [OF g] shape
    show "status (fst (POST rt env sv req)) = 402"
      "get_prop (payload (fst (POST rt env sv req))) ''used'' = JNum used"
      "get_prop (payload (fst (POST rt env sv req))) ''limit'' = JNum (Fin 100)"
      "snd (POST rt env sv req) = ?calls"
      by simp_all
  next
    assume "js_le (js_add used (f_count f)) (Fin 100)"
    then show "Fetch_completion k
                (buildFlashcardPrompt rt (f_notes f) (f_count f) (f_style f) (f_mode f))
                \<in> set (snd (POST rt env sv req))"
      by (intro pass js_le_not_gt)
  next
    fix a b :: int
    assume h: "used = Fin (of_int a) \<and> f_count f = Fin (of_int b) \<and> \<bar>a + b\<bar> < 2 ^ 53"
    then have "js_add (Fin (of_int a)) (Fin (of_int b)) = Fin (of_int (a + b))"
      by (intro js_add_whole) (rule conjunct2 [THEN conjunct2])
    with h show "js_add used (f_count f) = Fin (of_int (a + b))"
      by simp
  next
    assume a: "used = Fin 95 \<and> f_count f = Fin 10"
    with quota_95_10 have g: "js_gt (js_add used (f_count f)) (Fin 100)" by simp
    from reject [OF g] shape a
    show "status (fst (POST rt env sv req)) = 402"
      "get_prop (payload (fst (POST rt env sv req))) ''used'' = JNum (Fin 95)"
      "get_prop (payload (fst (POST rt env sv req))) ''limit'' = JNum (Fin 100)"
      by simp_all
  next
    assume a: "used = Fin 95 \<and> f_count f = Fin 5"
    with quota_95_5 have "js_le (js_add used (f_count f)) (Fin 100)" by simp
    then have "\<not> js_gt (js_add used (f_count f)) (Fin 100)"
      by (rule js_le_not_gt)
    then show "Fetch_completion k
                (buildFlashcardPrompt rt (f_notes f) (f_count f) (f_style f) (f_mode f))
                \<in> set (snd (POST rt env sv req))"
      by (rule pass)
  qed
qed

text \<open>
  C7.  A request whose fields are read, whose notes are not empty and whose
  configuration is complete, but whose Authorization header yields no bearer token
  (no header, no \<open>Bearer\<close> prefix, or nothing after the prefix), is answered 401
  \<open>Unauthorized\<close> with no call made at all: not to the identity service, not to the
  row store, not to the completion service.
\<close>

theorem missing_token_unauthorized:
  assumes "read_fields rt (body_of req) = Inr f" and "f_notes f \<noteq> []"
    and "\<not> unset (GROQ_API_KEY env)"
    and "\<not> unset (NEXT_PUBLIC_SUPABASE_URL env)" and "\<not> unset (SUPABASE_SERVICE_ROLE_KEY env)"
    and "access_token (req_authorization req) = []"
  shows "POST rt env sv req = (json_response [(''error'', JStr ''Unauthorized'')] 401, [])"
  using assms by (simp add: POST_def POST_try_def Let_def)

text \<open>
  C10.  Whenever the response is not a 200, whatever the collaborators answer, the
  trace of the request holds no insert into \<open>generations\<close> and no upsert of \<open>usage\<close>:
  both writes sit behind the computation of the cleaned cards, on the path to the 200.
\<close>

theorem no_write_unless_ok:
  "status (fst (POST rt env sv req)) \<noteq> 200 \<Longrightarrow>
     \<not> list_ex is_write (snd (POST rt env sv req))"
proof
  assume st: "status (fst (POST rt env sv req)) \<noteq> 200"
    and w: "list_ex is_write (snd (POST rt env sv req))"
  from w have "list_ex is_write (snd (POST_try rt env sv req))"
    by (simp add: POST_of_try)
  from POST_try_writes [OF this] obtain r where
    "fst (POST_try rt env sv req) = Inr r" "status r = 200" by blast
  then have "status (fst (POST rt env sv req)) = 200"
    by (simp add: POST_of_try)
  with st show False by simp
qed

text \<open>
  C9.  A request whose \<open>mode\<close> is a text other than \<open>questions\<close> and \<open>short_notes\<close>
  gets the very response that the same request with the mode \<open>auto\<close> gets: the handler
  never looks at the value, the fields carry it unchanged, and the prompt built from it
  is the prompt of the mode \<open>auto\<close>, with the auto-detection sentence.
\<close>

theorem unknown_mode_is_auto:
  assumes "req_body req = Some (JObj kvs)" and "map_of kvs ''mode'' = Some (JStr m)"
    and "m \<noteq> ''questions''" and "m \<noteq> ''short_notes''"
  shows "fst (POST rt env sv req)
           = fst (POST rt env sv (req\<lparr>req_body := Some (JObj ((''mode'', JStr ''auto'') # kvs))\<rparr>))
       \<and> (\<forall>f. read_fields rt (body_of req) = Inr f \<longrightarrow>
             f_mode f = m
             \<and> buildFlashcardPrompt rt (f_notes f) (f_count f) (f_style f) (f_mode f)
                 = buildFlashcardPrompt rt (f_notes f) (f_count f) (f_style f) ''auto''
             \<and> sublist auto_rules
                 (buildFlashcardPrompt rt (f_notes f) (f_count f) (f_style f) (f_mode f)))"
proof (intro conjI allI impI)
  show "fst (POST rt env sv req)
          = fst (POST rt env sv (req\<lparr>req_body := Some (JObj ((''mode'', JStr ''auto'') # kvs))\<rparr>))"
    using POST_try_mode_auto [OF assms, of rt env sv] by (simp add: POST_of_try)
next
  fix f assume "read_fields rt (body_of req) = Inr f"
  with assms(1) have "read_fields rt (JObj kvs) = Inr f"
    by (simp add: body_of_def)
  then show m: "f_mode f = m"
    by (rule read_fields_mode_auto(2) [OF assms(2)])
  with assms(3,4)
  show eq: "buildFlashcardPrompt rt (f_notes f) (f_count f) (f_style f) (f_mode f)
              = buildFlashcardPrompt rt (f_notes f) (f_count f) (f_style f) ''auto''"
    using prompt_other_mode [of "f_mode f" rt "f_notes f" "f_count f" "f_style f"] by simp
  show "sublist auto_rules (buildFlashcardPrompt rt (f_notes f) (f_count f) (f_style f) (f_mode f))"
    unfolding eq using prompt_contains_rules [of "''auto''" rt "f_notes f" "f_count f" "f_style f"]
    by simp
qed

subsection \<open>The claims at the sample requests\<close>

lemma sample_token: "access_token (Some ''Bearer tok'') = ''tok''"
  by code_simp

lemma sample_reads:
  "read_fields sample_runtime (body_of (sample_request 10 ''auto'' h)) = Inr (sample_fields 10 ''auto'')"
  "read_fields sample_runtime (body_of (sample_request 5 ''auto'' h)) = Inr (sample_fields 5 ''auto'')"
  "read_fields sample_runtime (body_of (sample_request 5 ''garbage'' h)) = Inr (sample_fields 5 ''garbage'')"
  by code_simp+

text \<open>The whole handler on a request that succeeds: one card survives, usage goes to 96.\<close>

lemma sample_run_response:
  "fst (POST sample_runtime sample_env sample_services (sample_request 5 ''garbage'' (Some ''Bearer tok'')))
    = json_response [(''title'', JStr ''Biology''),
         (''flashcards'', JArr [flashcard_json \<lparr> question = ''Q2'', answer = ''A2'', tags = [] \<rparr>])] 200"
  by code_simp

lemma sample_run_writes:
  "filter is_write
     (snd (POST sample_runtime sample_env sample_services (sample_request 5 ''garbage'' (Some ''Bearer tok''))))
    = [Insert_generations \<lparr> g_user_id = ''u1'', g_input = ''photosynthesis'', g_mode = ''garbage'',
          g_style = ''balanced'', g_requested_count = Fin 5, g_title = ''Biology'',
          g_output = [\<lparr> question = ''Q2'', answer = ''A2'', tags = [] \<rparr>] \<rparr>,
       Upsert_usage ''u1'' (Fin 96)]"
  by code_simp

theorem free_plan_quota_witness:
  "read_fields sample_runtime (body_of (sample_request 10 ''auto'' (Some ''Bearer tok'')))
     = Inr (sample_fields 10 ''auto'')
   \<and> access_token (req_authorization (sample_request 10 ''auto'' (Some ''Bearer tok''))) = ''tok''
   \<and> auth_getUser sample_services ''tok'' = Inr (Some ''u1'')
   \<and> js_gt (js_add (Fin 95) (Fin 10)) (Fin 100)
   \<and> status (fst (POST sample_runtime sample_env sample_services
                      (sample_request 10 ''auto'' (Some ''Bearer tok'')))) = 402
   \<and> get_prop (payload (fst (POST sample_runtime sample_env sample_services
                      (sample_request 10 ''auto'' (Some ''Bearer tok''))))) ''used'' = JNum (Fin 95)
   \<and> get_prop (payload (fst (POST sample_runtime sample_env sample_services
                      (sample_request 10 ''auto'' (Some ''Bearer tok''))))) ''limit'' = JNum (Fin 100)
   \<and> snd (POST sample_runtime sample_env sample_services
             (sample_request 10 ''auto'' (Some ''Bearer tok'')))
       = [Auth_getUser ''tok'', Select_profiles ''u1'', Select_usage ''u1'']
   \<and> js_le (js_add (Fin 95) (Fin 5)) (Fin 100)
   \<and> Fetch_completion ''gsk''
        (buildFlashcardPrompt sample_runtime ''photosynthesis'' (Fin 5) ''balanced'' ''auto'')
       \<in> set (snd (POST sample_runtime sample_env sample_services
                      (sample_request 5 ''auto'' (Some ''Bearer tok''))))"
proof -
  let ?h = "Some ''Bearer tok''"
  have n: "f_notes (sample_fields x m) \<noteq> []" for x m
    by (simp add: sample_fields_def)
  have k: "GROQ_API_KEY sample_env = Some ''gsk''" "''gsk'' \<noteq> []"
    by (simp_all add: sample_env_def)
  have e: "\<not> unset (NEXT_PUBLIC_SUPABASE_URL sample_env)"
    "\<not> unset (SUPABASE_SERVICE_ROLE_KEY sample_env)"
    by (simp_all add: unset_def sample_env_def)
  have t: "access_token (req_authorization (sample_request x m ?h)) = ''tok''" "''tok'' \<noteq> []" for x m
    by (simp_all add: sample_request_def sample_token)
  have c: "createClient sample_services (env_text (NEXT_PUBLIC_SUPABASE_URL sample_env))
             (env_text (SUPABASE_SERVICE_ROLE_KEY sample_env)) = None"
    by (simp add: sample_services_def)
  have u: "auth_getUser sample_services ''tok'' = Inr (Some ''u1'')"
    by (simp add: sample_services_def)
  have p: "select_profiles sample_services ''u1'' = Inr (JObj [(''plan'', JStr ''free'')])"
    "get_prop (JObj [(''plan'', JStr ''free'')]) ''plan'' \<noteq> JStr ''premium''"
    by (simp_all add: sample_services_def)
  have us: "select_usage sample_services ''u1'' = Inr (JObj [(''flashcards_used'', JNum (Fin 95))])"
    "js_Number sample_runtime
       (nullish (get_prop (JObj [(''flashcards_used'', JNum (Fin 95))]) ''flashcards_used'')
          (JNum (Fin 0))) = Inr (Fin 95)"
    by (simp_all add: sample_services_def nullish_def)
  note ten = free_plan_quota [OF sample_reads(1) n k e c t u p us]
  note five = free_plan_quota [OF sample_reads(2) n k e c t u p us]
  have fc: "f_count (sample_fields x m) = Fin x" "f_notes (sample_fields x m) = ''photosynthesis''"
    "f_style (sample_fields x m) = ''balanced''" "f_mode (sample_fields x m) = m" for x m
    by (simp_all add: sample_fields_def)
  from ten quota_95_10 have ten': "status (fst (POST sample_runtime sample_env sample_services
                      (sample_request 10 ''auto'' ?h))) = 402
     \<and> get_prop (payload (fst (POST sample_runtime sample_env sample_services
                      (sample_request 10 ''auto'' ?h)))) ''used'' = JNum (Fin 95)
     \<and> get_prop (payload (fst (POST sample_runtime sample_env sample_services
                      (sample_request 10 ''auto'' ?h)))) ''limit'' = JNum (Fin 100)
     \<and> snd (POST sample_runtime sample_env sample_services (sample_request 10 ''auto'' ?h))
         = [Auth_getUser ''tok'', Select_profiles ''u1'', Select_usage ''u1'']"
    by (simp add: fc)
  from five quota_95_5 have five': "Fetch_completion ''gsk''
        (buildFlashcardPrompt sample_runtime ''photosynthesis'' (Fin 5) ''balanced'' ''auto'')
       \<in> set (snd (POST sample_runtime sample_env sample_services (sample_request 5 ''auto'' ?h)))"
    by (simp add: fc)
  from ten' five' quota_95_10 quota_95_5 sample_reads(1) [of ?h] t u show ?thesis
    by simp
qed

theorem missing_token_unauthorized_witness:
  "read_fields sample_runtime (body_of (sample_request 10 ''auto'' None))
     = Inr (sample_fields 10 ''auto'')
   \<and> f_notes (sample_fields 10 ''auto'') \<noteq> []
   \<and> access_token (req_authorization (sample_request 10 ''auto'' None)) = []
   \<and> POST sample_runtime sample_env sample_services (sample_request 10 ''auto'' None)
       = (json_response [(''error'', JStr ''Unauthorized'')] 401, [])"
proof -
  have n: "f_notes (sample_fields 10 ''auto'') \<noteq> []"
    by (simp add: sample_fields_def)
  have e: "\<not> unset (GROQ_API_KEY sample_env)" "\<not> unset (NEXT_PUBLIC_SUPABASE_URL sample_env)"
    "\<not> unset (SUPABASE_SERVICE_ROLE_KEY sample_env)"
    by (simp_all add: unset_def sample_env_def)
  have t: "access_token (req_authorization (sample_request 10 ''auto'' None)) = []"
    by (simp add: sample_request_def access_token_absent)
  from missing_token_unauthorized [OF sample_reads(1) n e t, of sample_services] sample_reads(1) n t
  show ?thesis by simp
qed

theorem unknown_mode_is_auto_witness:
  "map_of [(''notes'', JStr ''photosynthesis''), (''count'', JNum (Fin 5)), (''mode'', JStr ''garbage'')]
     ''mode'' = Some (JStr ''garbage'')
   \<and> ''garbage'' \<noteq> ''questions'' \<and> ''garbage'' \<noteq> ''short_notes''
   \<and> read_fields sample_runtime (body_of (sample_request 5 ''garbage'' (Some ''Bearer tok'')))
       = Inr (sample_fields 5 ''garbage'')
   \<and> status (fst (POST sample_runtime sample_env sample_services
                      (sample_request 5 ''garbage'' (Some ''Bearer tok'')))) = 200
   \<and> fst (POST sample_runtime sample_env sample_services
             (sample_request 5 ''garbage'' (Some ''Bearer tok'')))
       = fst (POST sample_runtime sample_env sample_services
                (sample_request 5 ''garbage'' (Some ''Bearer tok'')
                   \<lparr>req_body := Some (JObj [(''mode'', JStr ''auto''), (''notes'', JStr ''photosynthesis''),
                                             (''count'', JNum (Fin 5)), (''mode'', JStr ''garbage'')])\<rparr>))
   \<and> sublist auto_rules
        (buildFlashcardPrompt sample_runtime ''photosynthesis'' (Fin 5) ''balanced'' ''garbage'')"
proof -
  let ?req = "sample_request 5 ''garbage'' (Some ''Bearer tok'')"
  let ?kvs = "[(''notes'', JStr ''photosynthesis''), (''count'', JNum (Fin 5)), (''mode'', JStr ''garbage'')]"
  have b: "req_body ?req = Some (JObj ?kvs)"
    by (simp add: sample_request_def)
  have m: "map_of ?kvs ''mode'' = Some (JStr ''garbage'')"
    by simp
  have d: "''garbage'' \<noteq> ''questions''" "''garbage'' \<noteq> ''short_notes''"
    by simp_all
  have s: "status (fst (POST sample_runtime sample_env sample_services ?req)) = 200"
    by (simp add: sample_run_response json_response_def)
  note r = unknown_mode_is_auto [OF b m d, of sample_runtime sample_env sample_services]
  from r have same: "fst (POST sample_runtime sample_env sample_services ?req)
      = fst (POST sample_runtime sample_env sample_services
               (?req\<lparr>req_body := Some (JObj ((''mode'', JStr ''auto'') # ?kvs))\<rparr>))"
    by (rule conjunct1)
  from r sample_reads(3) [of "Some ''Bearer tok''"]
  have "sublist auto_rules
          (buildFlashcardPrompt sample_runtime (f_notes (sample_fields 5 ''garbage''))
             (f_count (sample_fields 5 ''garbage'')) (f_style (sample_fields 5 ''garbage''))
             (f_mode (sample_fields 5 ''garbage'')))"
    by blast
  then have auto: "sublist auto_rules
          (buildFlashcardPrompt sample_runtime ''photosynthesis'' (Fin 5) ''balanced'' ''garbage'')"
    by (simp add: sample_fields_def)
  from same auto sample_reads(3) [of "Some ''Bearer tok''"] m s
  show ?thesis by simp
qed

theorem no_write_unless_ok_witness:
  "status (fst (POST sample_runtime sample_env sample_services
                  (sample_request 10 ''auto'' (Some ''Bearer tok'')))) \<noteq> 200
   \<and> \<not> list_ex is_write (snd (POST sample_runtime sample_env sample_services
                                  (sample_request 10 ''auto'' (Some ''Bearer tok''))))
   \<and> status (fst (POST sample_runtime sample_env sample_services
                  (sample_request 10 ''auto'' (Some ''Bearer stale'')))) \<noteq> 200
   \<and> \<not> list_ex is_write (snd (POST sample_runtime sample_env sample_services
                                  (sample_request 10 ''auto'' (Some ''Bearer stale''))))"
proof -
  have a: "status (fst (POST sample_runtime sample_env sample_services
                  (sample_request 10 ''auto'' (Some ''Bearer tok'')))) = 402"
    by code_simp
  have b: "status (fst (POST sample_runtime sample_env sample_services
                  (sample_request 10 ''auto'' (Some ''Bearer stale'')))) = 401"
    by code_simp
  from a have a': "status (fst (POST sample_runtime sample_env sample_services
                  (sample_request 10 ''auto'' (Some ''Bearer tok'')))) \<noteq> 200" by simp
  from b have b': "status (fst (POST sample_runtime sample_env sample_services
                  (sample_request 10 ''auto'' (Some ''Bearer stale'')))) \<noteq> 200" by simp
  from no_write_unless_ok [OF a'] no_write_unless_ok [OF b'] a' b' show ?thesis by simp
qed


end
